theory Spec2Isabelle
  imports Complex_Main "HOL-Library.Log_Nat" "HOL-Library.Sublist"
begin

section \<open>JavaScript numbers and strings\<close>

text \<open>
  The web client (the component \<^verbatim>\<open>Home\<close> and its helpers in
  \<^verbatim>\<open>src/web/src/app/layout.tsx\<close>) computes with JavaScript numbers, which are
  IEEE binary64 values. A finite number is modelled by its exact value, a rational; the two
  operations of the client that round, \<^verbatim>\<open>/\<close> and \<^verbatim>\<open>*\<close>, round their exact
  result to the nearest binary64 value, ties to even. \<^verbatim>\<open>%\<close>, \<^verbatim>\<open>Math.floor\<close> and
  \<^verbatim>\<open>Math.round\<close> are exact in binary64. NaN, the infinities and overflow beyond
  \<open>2^1024\<close> are outside the model.
\<close>

type_synonym number = rat

definition ilog2 :: "rat \<Rightarrow> int" where
  \<comment> \<open>the binary exponent \<open>\<lfloor>log\<^sub>2 \<bar>q\<bar>\<rfloor>\<close> of a non-zero rational\<close>
  "ilog2 q = (let (a, b) = quotient_of \<bar>q\<bar>; d = bitlen a - bitlen b
              in if 2 powi d \<le> \<bar>q\<bar> then d else d - 1)"

definition roundTiesToEven :: "rat \<Rightarrow> int" where
  "roundTiesToEven x = (let f = \<lfloor>x\<rfloor>; r = x - of_int f
     in if r < 1 / 2 then f else if 1 / 2 < r then f + 1 else if even f then f else f + 1)"

definition ulp :: "rat \<Rightarrow> rat" where
  \<comment> \<open>the spacing of the binary64 values around \<open>q\<close>: 53 significant bits, and
      \<open>2^-1074\<close> below \<open>2^-1022\<close>\<close>
  "ulp q = 2 powi (max (ilog2 q) (- 1022) - 52)"

definition binary64 :: "rat \<Rightarrow> number" where
  "binary64 q = (if q = 0 then 0 else of_int (roundTiesToEven (q / ulp q)) * ulp q)"

definition js_div :: "number \<Rightarrow> number \<Rightarrow> number" where
  \<comment> \<open>\<^verbatim>\<open>a / b\<close> for \<open>b \<noteq> 0\<close>\<close>
  "js_div a b = binary64 (a / b)"

definition js_mul :: "number \<Rightarrow> number \<Rightarrow> number" where
  "js_mul a b = binary64 (a * b)"

definition js_rem :: "number \<Rightarrow> number \<Rightarrow> number" where
  \<comment> \<open>\<^verbatim>\<open>a % b\<close> for \<open>b \<noteq> 0\<close>: the remainder of the division truncated towards zero\<close>
  "js_rem a b = (let q = a / b; t = (if 0 \<le> q then \<lfloor>q\<rfloor> else \<lceil>q\<rceil>)
                 in a - b * of_int t)"

definition Math_floor :: "number \<Rightarrow> int" where
  "Math_floor x = \<lfloor>x\<rfloor>"

definition Math_round :: "number \<Rightarrow> int" where
  \<comment> \<open>the nearest integer, a tie going up\<close>
  "Math_round x = \<lfloor>x + 1 / 2\<rfloor>"

definition Math_min :: "nat \<Rightarrow> nat \<Rightarrow> nat" where
  "Math_min a b = (if a < b then a else b)"

text \<open>
  \<^verbatim>\<open>Number.prototype.toString\<close> on an integral number. Below \<open>2^53\<close> every integer is a
  binary64 value and prints as its decimal digits. From \<open>2^53\<close> on, JavaScript prints the
  decimal with the fewest significant digits that still rounds to the number (the closest
  one when several have that many digits, the even one on a tie), padded with zeros up to
  21 digits and in exponent form beyond.
\<close>

definition digit :: "int \<Rightarrow> char" where
  "digit d = char_of (48 + d)"

function decimal :: "int \<Rightarrow> string" where
  \<comment> \<open>the digits of a non-negative integer\<close>
  "decimal i = (if i < 10 then [digit i] else decimal (i div 10) @ [digit (i mod 10)])"
  by pat_completeness auto
termination
  by (relation "measure nat") auto

declare decimal.simps [simp del]

definition nearest_multiples :: "int \<Rightarrow> int \<Rightarrow> int list" where
  \<comment> \<open>the two multiples of \<open>p\<close> around \<open>i\<close>, the closer one first, the even multiple first
      on a tie\<close>
  "nearest_multiples i p =
     (let lo = i div p; below = i - lo * p; above = (lo + 1) * p - i
      in if below < above \<or> (below = above \<and> even lo) then [lo * p, (lo + 1) * p]
         else [(lo + 1) * p, lo * p])"

definition shortest :: "int \<Rightarrow> int" where
  \<comment> \<open>the integer of fewest significant digits (at most 17 are ever needed) whose
      binary64 value is \<open>i\<close>\<close>
  "shortest i =
     (let d = length (decimal i);
          fits = (\<lambda>v. binary64 (of_int v) = of_int i);
          found = concat (map (\<lambda>k. filter fits (nearest_multiples i (10 ^ (d - k))))
                              [1..<Suc (min d 17)])
      in case found of [] \<Rightarrow> i | v # _ \<Rightarrow> v)"

definition dropTrailingZeros :: "string \<Rightarrow> string" where
  "dropTrailingZeros ds = rev (dropWhile (\<lambda>c. c = CHR ''0'') (rev ds))"

definition exponential :: "string \<Rightarrow> string" where
  \<comment> \<open>the digits \<open>ds\<close> of an integer of more than 21 digits, as \<^verbatim>\<open>d.ddde+N\<close>\<close>
  "exponential ds =
     (case dropTrailingZeros ds of
        [] \<Rightarrow> ds
      | c # cs \<Rightarrow> (if cs = [] then [c] else c # CHR ''.'' # cs)
                  @ ''e+'' @ decimal (int (length ds) - 1))"

definition numberDigits :: "int \<Rightarrow> string" where
  \<comment> \<open>the string of a non-negative integral number\<close>
  "numberDigits i =
     (if i < 2 ^ 53 then decimal i
      else (let ds = decimal (shortest i)
            in if length ds \<le> 21 then ds else exponential ds))"

definition toString :: "int \<Rightarrow> string" where
  "toString i = (if i < 0 then CHR ''-'' # numberDigits (- i) else numberDigits i)"

definition toFixed :: "nat \<Rightarrow> number \<Rightarrow> string" where
  \<comment> \<open>\<^verbatim>\<open>x.toFixed(f)\<close> for \<open>\<bar>x\<bar> < 10^21\<close>: the integer \<open>n\<close> with \<open>n / 10^f\<close> nearest to
      \<open>\<bar>x\<bar>\<close>, the larger one on a tie, printed with \<open>f\<close> digits after the point\<close>
  "toFixed f x =
     (let s = (if x < 0 then ''-'' else '''');
          n = \<lfloor>\<bar>x\<bar> * 10 ^ f + 1 / 2\<rfloor>;
          m = decimal n;
          m = (if f \<noteq> 0
               then (let m = (if length m \<le> f
                              then replicate (f + 1 - length m) CHR ''0'' @ m else m);
                         k = length m
                     in take (k - f) m @ ''.'' @ drop (k - f) m)
               else m)
      in s @ m)"

text \<open>
  Strings are byte strings. \<^verbatim>\<open>toLowerCase\<close> is modelled on the ASCII letters; no
  character outside ASCII lower-cases to one of the letters of \<^verbatim>\<open>mp4\<close>, \<^verbatim>\<open>mov\<close> or
  \<^verbatim>\<open>webm\<close>, so the test of \<open>handleFile\<close> below is not affected.
\<close>

definition lower_char :: "char \<Rightarrow> char" where
  "lower_char c = (let n = (of_char c :: nat)
                   in if 65 \<le> n \<and> n \<le> 90 then char_of (n + 32) else c)"

definition toLowerCase :: "string \<Rightarrow> string" where
  "toLowerCase s = map lower_char s"

fun split :: "char \<Rightarrow> string \<Rightarrow> string list" where
  "split sep [] = [[]]"
| "split sep (c # cs) =
     (if c = sep then [] # split sep cs
      else (case split sep cs of [] \<Rightarrow> [[c]] | p # ps \<Rightarrow> (c # p) # ps))"

definition pop :: "'a list \<Rightarrow> 'a option" where
  \<comment> \<open>the element \<^verbatim>\<open>Array.prototype.pop\<close> returns; \<open>None\<close> is \<^verbatim>\<open>undefined\<close>\<close>
  "pop xs = (if xs = [] then None else Some (last xs))"

definition includes_elem :: "'a list \<Rightarrow> 'a \<Rightarrow> bool" where
  \<comment> \<open>\<^verbatim>\<open>xs.includes(x)\<close>\<close>
  "includes_elem xs x = (x \<in> set xs)"

definition padStart :: "nat \<Rightarrow> char \<Rightarrow> string \<Rightarrow> string" where
  \<comment> \<open>\<^verbatim>\<open>s.padStart(n, c)\<close> with a one-character filler\<close>
  "padStart n c s = replicate (n - length s) c @ s"

section \<open>The helpers of the page\<close>

definition MAX_SIZE_MB :: nat where
  "MAX_SIZE_MB = 500"

definition PIPELINE_STEPS :: "string list" where
  "PIPELINE_STEPS =
     [''Extracting audio from video'',
      ''Transcribing narration'',
      ''Scanning for failure signals'',
      ''Analyzing with AI'',
      ''Deduplicating results'']"

definition formatTimestamp :: "number \<Rightarrow> string" where
  "formatTimestamp seconds =
     (let m = Math_floor (js_div seconds 60);
          s = Math_floor (js_rem seconds 60)
      in toString m @ '':'' @ padStart 2 CHR ''0'' (toString s))"

definition formatFileSize :: "nat \<Rightarrow> string" where
  "formatFileSize bytes =
     (if bytes < 1024 * 1024 then toFixed 0 (js_div (of_nat bytes) 1024) @ '' KB''
      else toFixed 1 (js_div (of_nat bytes) (1024 * 1024)) @ '' MB'')"

definition confidenceClass :: "number \<Rightarrow> string" where
  \<comment> \<open>the literals \<^verbatim>\<open>0.7\<close> and \<^verbatim>\<open>0.4\<close> denote the binary64 values nearest to them\<close>
  "confidenceClass c =
     (if binary64 (7 / 10) \<le> c then ''confidence-high''
      else if binary64 (4 / 10) \<le> c then ''confidence-medium''
      else ''confidence-low'')"

section \<open>JSON values and HTTP responses\<close>

text \<open>
  \<^verbatim>\<open>res.json()\<close> yields an arbitrary JSON value; the TypeScript annotations on it are not
  checked at run time. An object is its list of members in document order; where a key is
  repeated \<^verbatim>\<open>JSON.parse\<close> keeps the last member.
\<close>

datatype json =
    JNull
  | JBool bool
  | JNum number
  | JStr string
  | JArr "json list"
  | JObj "(string \<times> json) list"

definition member :: "(string \<times> json) list \<Rightarrow> string \<Rightarrow> json option" where
  "member kvs k = map_of (rev kvs) k"

fun truthy :: "json \<Rightarrow> bool" where
  "truthy JNull = False"
| "truthy (JBool b) = b"
| "truthy (JNum n) = (n \<noteq> 0)"
| "truthy (JStr s) = (s \<noteq> [])"
| "truthy (JArr xs) = True"
| "truthy (JObj kvs) = True"

text \<open>
  The text of an error message is a string. Three messages are worded by the browser and
  one is the string conversion of a JSON value that is not a string; they are kept
  symbolic.
\<close>

datatype engine_error =
    FetchFailed       \<comment> \<open>\<^verbatim>\<open>fetch\<close> rejected: no response at all\<close>
  | BodyNotJson       \<comment> \<open>\<^verbatim>\<open>res.json()\<close> rejected\<close>
  | PropertyOfNull    \<comment> \<open>\<^verbatim>\<open>body.detail\<close> read on \<^verbatim>\<open>null\<close>\<close>

datatype message =
    Text string
  | ToString json
  | EngineText engine_error

datatype exn =
    JsError message   \<comment> \<open>an instance of \<^verbatim>\<open>Error\<close> with this \<^verbatim>\<open>message\<close>\<close>
  | NotAnError

definition String_of :: "json \<Rightarrow> message" where
  \<comment> \<open>\<^verbatim>\<open>new Error(v).message\<close>\<close>
  "String_of v = (case v of JStr s \<Rightarrow> Text s | _ \<Rightarrow> ToString v)"

record response =
  status :: nat
  statusText :: string
  body :: "json option"   \<comment> \<open>\<open>None\<close>: the body does not parse as JSON\<close>

definition ok :: "response \<Rightarrow> bool" where
  \<comment> \<open>\<^verbatim>\<open>Response.ok\<close>: the status is in the range 200 to 299\<close>
  "ok res = (200 \<le> status res \<and> status res \<le> 299)"

datatype outcome =
    Rejected             \<comment> \<open>the promise of \<^verbatim>\<open>fetch\<close> rejects\<close>
  | Responded response

section \<open>The state of the page\<close>

datatype AppState = Idle | Selected | Analyzing | Done | Error

record File =
  name :: string
  size_bytes :: nat

record request =
  path :: string
  method_of :: string
  form :: "(string \<times> File) list"

text \<open>
  The first eight fields are the \<^verbatim>\<open>useState\<close> cells of \<^verbatim>\<open>Home\<close>. The last four are
  the environment the component acts on: whether the interval timer \<^verbatim>\<open>stepInterval\<close> is
  armed (it is from \<^verbatim>\<open>setInterval\<close> to \<^verbatim>\<open>clearInterval\<close>, which is also the time
  the request is in flight), the requests \<^verbatim>\<open>fetch\<close> has sent, the clipboard, and the
  number of pending two-second timeouts of \<^verbatim>\<open>copyJson\<close>.
\<close>

record Home =
  state :: AppState
  "file" :: "File option"
  result :: "json option"
  error :: message
  copied :: bool
  showJson :: bool
  activeStep :: nat
  dragover :: bool
  stepInterval :: bool
  sent :: "request list"
  clipboard :: "json option"
  copyTimeouts :: nat

definition initial :: Home where
  "initial = \<lparr> state = Idle, file = None, result = None, error = Text '''',
               copied = False, showJson = False, activeStep = 0, dragover = False,
               stepInterval = False, sent = [], clipboard = None, copyTimeouts = 0 \<rparr>"

definition has_result :: "Home \<Rightarrow> bool" where
  \<comment> \<open>the truthiness of \<^verbatim>\<open>result\<close>\<close>
  "has_result h = (case result h of None \<Rightarrow> False | Some r \<Rightarrow> truthy r)"

definition handleFile :: "File \<Rightarrow> Home \<Rightarrow> Home" where
  "handleFile f h =
     (let ext = map_option toLowerCase (pop (split CHR ''.'' (name f)))
      in if \<not> includes_elem [''mp4'', ''mov'', ''webm'']
                 (case ext of None \<Rightarrow> '''' | Some e \<Rightarrow> e)
         then h\<lparr> error := Text ''Unsupported format. Please upload MP4, MOV, or WebM.'',
                 state := Error \<rparr>
         else if MAX_SIZE_MB * 1024 * 1024 < size_bytes f
         then h\<lparr> error := Text (''File too large ('' @ formatFileSize (size_bytes f)
                                 @ ''). Max is '' @ decimal (int MAX_SIZE_MB) @ '' MB.''),
                 state := Error \<rparr>
         else h\<lparr> file := Some f, state := Selected, error := Text '''', result := None \<rparr>)"

definition onDrop :: "File option \<Rightarrow> Home \<Rightarrow> Home" where
  \<comment> \<open>the argument is \<^verbatim>\<open>e.dataTransfer.files[0]\<close>\<close>
  "onDrop f h = (let h = h\<lparr> dragover := False \<rparr>
                 in case f of None \<Rightarrow> h | Some f \<Rightarrow> handleFile f h)"

definition onDragOver :: "Home \<Rightarrow> Home" where
  "onDragOver h = h\<lparr> dragover := True \<rparr>"

definition onDragLeave :: "Home \<Rightarrow> Home" where
  "onDragLeave h = h\<lparr> dragover := False \<rparr>"

definition onFileInput :: "File option \<Rightarrow> Home \<Rightarrow> Home" where
  "onFileInput f h = (case f of None \<Rightarrow> h | Some f \<Rightarrow> handleFile f h)"

text \<open>
  \<open>analyze\<close> is asynchronous. Its first part runs to the call of \<^verbatim>\<open>fetch\<close>; the timer
  may tick any number of times while the request is in flight; its second part runs when
  the promise settles.
\<close>

definition analyze :: "Home \<Rightarrow> Home" where
  "analyze h =
     (case file h of
        None \<Rightarrow> h
      | Some f \<Rightarrow>
          h\<lparr> state := Analyzing, activeStep := 0, result := None, error := Text '''',
             stepInterval := True,
             sent := sent h @ [\<lparr> path = ''/analyze'', method_of = ''POST'',
                                 form = [(''file'', f)] \<rparr>] \<rparr>)"

definition tick :: "Home \<Rightarrow> Home" where
  "tick h = h\<lparr> activeStep := Math_min (activeStep h + 1) (length PIPELINE_STEPS - 1) \<rparr>"

definition read_detail :: "json \<Rightarrow> exn + json option" where
  \<comment> \<open>\<^verbatim>\<open>body.detail\<close>: a TypeError on \<^verbatim>\<open>null\<close>, \<^verbatim>\<open>undefined\<close> (\<open>None\<close>) where the
      value has no such property\<close>
  "read_detail b =
     (case b of
        JNull \<Rightarrow> Inl (JsError (EngineText PropertyOfNull))
      | JObj kvs \<Rightarrow> Inr (member kvs ''detail'')
      | _ \<Rightarrow> Inr None)"

definition error_of_response :: "response \<Rightarrow> exn" where
  \<comment> \<open>what the block under \<^verbatim>\<open>if (!res.ok)\<close> throws\<close>
  "error_of_response res =
     (let b = (case body res of
                 None \<Rightarrow> JObj [(''detail'', JStr (statusText res))]
               | Some b \<Rightarrow> b)
      in case read_detail b of
           Inl e \<Rightarrow> e
         | Inr d \<Rightarrow>
             JsError (case d of
                        None \<Rightarrow> Text (''HTTP '' @ decimal (int (status res)))
                      | Some v \<Rightarrow> if truthy v then String_of v
                                  else Text (''HTTP '' @ decimal (int (status res)))))"

definition try_block :: "outcome \<Rightarrow> exn + json" where
  \<comment> \<open>the \<^verbatim>\<open>try\<close> block from \<^verbatim>\<open>await fetch\<close> on: the exception thrown, or \<^verbatim>\<open>data\<close>\<close>
  "try_block out =
     (case out of
        Rejected \<Rightarrow> Inl (JsError (EngineText FetchFailed))
      | Responded res \<Rightarrow>
          if \<not> ok res then Inl (error_of_response res)
          else (case body res of
                  None \<Rightarrow> Inl (JsError (EngineText BodyNotJson))
                | Some data \<Rightarrow> Inr data))"

definition settle :: "outcome \<Rightarrow> Home \<Rightarrow> Home" where
  "settle out h =
     (let h = h\<lparr> stepInterval := False \<rparr>
      in case try_block out of
           Inr data \<Rightarrow> h\<lparr> result := Some data, state := Done \<rparr>
         | Inl err \<Rightarrow>
             h\<lparr> error := (case err of JsError m \<Rightarrow> m
                                     | NotAnError \<Rightarrow> Text ''Something went wrong''),
                state := Error \<rparr>)"

definition copyJson :: "Home \<Rightarrow> Home" where
  "copyJson h =
     (if \<not> has_result h then h
      else h\<lparr> clipboard := result h, copied := True, copyTimeouts := copyTimeouts h + 1 \<rparr>)"

definition copyTimeout :: "Home \<Rightarrow> Home" where
  "copyTimeout h = h\<lparr> copied := False, copyTimeouts := copyTimeouts h - 1 \<rparr>"

definition reset :: "Home \<Rightarrow> Home" where
  "reset h = h\<lparr> file := None, result := None, error := Text '''', state := Idle,
                copied := False, showJson := False, activeStep := 0 \<rparr>"

definition toggleJson :: "Home \<Rightarrow> Home" where
  "toggleJson h = h\<lparr> showJson := \<not> showJson h \<rparr>"

section \<open>What the page shows\<close>

record FailureEvent =
  timestamp_seconds :: number
  title :: string
  expected :: string
  actual :: string
  evidence :: string
  confidence :: number

record AnalyzeResponse =
  failures :: "FailureEvent list"

text \<open>
  The rendering code reads \<^verbatim>\<open>result\<close> at the type \<^verbatim>\<open>AnalyzeResponse\<close>. The two
  functions below give the typed reading of a JSON value that has the members the
  interfaces name, with values of the types they name; any other value is outside the
  interfaces, and what the page shows for it (view \<open>IllTyped\<close>) is not modelled.
\<close>

definition as_FailureEvent :: "json \<Rightarrow> FailureEvent option" where
  "as_FailureEvent j =
     (case j of
        JObj kvs \<Rightarrow>
          (case (member kvs ''timestamp_seconds'', member kvs ''title'',
                 member kvs ''expected'', member kvs ''actual'',
                 member kvs ''evidence'', member kvs ''confidence'') of
             (Some (JNum t), Some (JStr ti), Some (JStr ex), Some (JStr ac),
              Some (JStr ev), Some (JNum c)) \<Rightarrow>
                Some \<lparr> timestamp_seconds = t, title = ti, expected = ex, actual = ac,
                       evidence = ev, confidence = c \<rparr>
           | _ \<Rightarrow> None)
      | _ \<Rightarrow> None)"

definition as_AnalyzeResponse :: "json \<Rightarrow> AnalyzeResponse option" where
  "as_AnalyzeResponse j =
     (case j of
        JObj kvs \<Rightarrow>
          (case member kvs ''failures'' of
             Some (JArr fs) \<Rightarrow>
               map_option (\<lambda>es. \<lparr> failures = es \<rparr>) (those (map as_FailureEvent fs))
           | _ \<Rightarrow> None)
      | _ \<Rightarrow> None)"

datatype step_mark = StepDone | StepActive | StepPending

record card =
  timestamp_text :: string     \<comment> \<open>follows a stopwatch sign\<close>
  confidence_class :: string
  confidence_text :: string
  title_text :: string
  expected_text :: string
  actual_text :: string
  evidence_text :: string

record results_view =
  count_text :: string
  copy_done :: bool
  no_failures :: bool            \<comment> \<open>the notice \<^verbatim>\<open>No failures detected\<close> is shown\<close>
  cards :: "card list"
  raw_json :: "json option"      \<comment> \<open>the value printed by the raw JSON viewer, when open\<close>

text \<open>
  What the page shows, by state. The block of state \<^verbatim>\<open>done\<close> is the chain
  \<^verbatim>\<open>state === "done" && result && (...)\<close>: for a falsy \<^verbatim>\<open>result\<close> React renders the
  value of the chain, which is nothing for \<^verbatim>\<open>null\<close>, \<^verbatim>\<open>false\<close> and the empty string, and
  the text \<^verbatim>\<open>0\<close> for the number 0.
\<close>

datatype view =
    UploadZone bool
  | FileInfo string string
  | Progress "(step_mark \<times> string) list"
  | ErrorBox message
  | Results results_view
  | PlainText string
  | Nothing
  | IllTyped

definition failure_card :: "FailureEvent \<Rightarrow> card" where
  "failure_card f =
     \<lparr> timestamp_text = formatTimestamp (timestamp_seconds f),
       confidence_class = confidenceClass (confidence f),
       confidence_text = toString (Math_round (js_mul (confidence f) 100)) @ ''% confidence'',
       title_text = title f,
       expected_text = expected f,
       actual_text = actual f,
       evidence_text = evidence f \<rparr>"

definition render_results :: "Home \<Rightarrow> json \<Rightarrow> AnalyzeResponse \<Rightarrow> results_view" where
  "render_results h raw r =
     \<lparr> count_text = decimal (int (length (failures r))) @ '' failure''
                     @ (if length (failures r) \<noteq> 1 then ''s'' else '''') @ '' detected'',
       copy_done = copied h,
       no_failures = (length (failures r) = 0),
       cards = map failure_card (failures r),
       raw_json = (if showJson h then Some raw else None) \<rparr>"

definition render :: "Home \<Rightarrow> view" where
  "render h =
     (case state h of
        Idle \<Rightarrow> UploadZone (dragover h)
      | Selected \<Rightarrow>
          (case file h of
             None \<Rightarrow> Nothing
           | Some f \<Rightarrow> FileInfo (name f) (formatFileSize (size_bytes f)))
      | Analyzing \<Rightarrow>
          Progress (map (\<lambda>(i, step).
                      (if i < activeStep h then StepDone
                       else if i = activeStep h then StepActive else StepPending, step))
                    (enumerate 0 PIPELINE_STEPS))
      | Error \<Rightarrow> ErrorBox (error h)
      | Done \<Rightarrow>
          (case result h of
             None \<Rightarrow> Nothing
           | Some raw \<Rightarrow>
               if \<not> truthy raw
               then (case raw of JNum n \<Rightarrow> PlainText ''0'' | _ \<Rightarrow> Nothing)
               else (case as_AnalyzeResponse raw of
                       None \<Rightarrow> IllTyped
                     | Some r \<Rightarrow> Results (render_results h raw r))))"

section \<open>Events\<close>

text \<open>
  An event can happen when the element that carries its handler is rendered: the upload
  zone in state \<open>Idle\<close>, the two buttons of the file panel in state \<open>Selected\<close>, the
  retry button in state \<open>Error\<close>, the buttons of the result panel in state \<open>Done\<close>.
  The timer ticks and the request settles only while \<open>stepInterval\<close> is armed.
\<close>

datatype event =
    Drop "File option"
  | DragOver
  | DragLeave
  | FileInput "File option"
  | ClickAnalyze
  | ClickRemove
  | TimerTick
  | FetchSettles outcome
  | ClickTryAgain
  | ClickCopy
  | CopyTimeoutFires
  | ClickNewUpload
  | ClickToggleJson

fun enabled :: "Home \<Rightarrow> event \<Rightarrow> bool" where
  "enabled h (Drop f) = (state h = Idle)"
| "enabled h DragOver = (state h = Idle)"
| "enabled h DragLeave = (state h = Idle)"
| "enabled h (FileInput f) = (state h = Idle)"
| "enabled h ClickAnalyze = (state h = Selected \<and> file h \<noteq> None)"
| "enabled h ClickRemove = (state h = Selected \<and> file h \<noteq> None)"
| "enabled h TimerTick = stepInterval h"
| "enabled h (FetchSettles out) = stepInterval h"
| "enabled h ClickTryAgain = (state h = Error)"
| "enabled h ClickCopy = (state h = Done \<and> has_result h)"
| "enabled h CopyTimeoutFires = (0 < copyTimeouts h)"
| "enabled h ClickNewUpload = (state h = Done \<and> has_result h)"
| "enabled h ClickToggleJson = (state h = Done \<and> has_result h)"

fun fire :: "event \<Rightarrow> Home \<Rightarrow> Home" where
  "fire (Drop f) h = onDrop f h"
| "fire DragOver h = onDragOver h"
| "fire DragLeave h = onDragLeave h"
| "fire (FileInput f) h = onFileInput f h"
| "fire ClickAnalyze h = analyze h"
| "fire ClickRemove h = reset h"
| "fire TimerTick h = tick h"
| "fire (FetchSettles out) h = settle out h"
| "fire ClickTryAgain h = reset h"
| "fire ClickCopy h = copyJson h"
| "fire CopyTimeoutFires h = copyTimeout h"
| "fire ClickNewUpload h = reset h"
| "fire ClickToggleJson h = toggleJson h"

fun run :: "event list \<Rightarrow> Home \<Rightarrow> Home option" where
  "run [] h = Some h"
| "run (e # es) h = (if enabled h e then run es (fire e h) else None)"

text \<open>
  The test \<open>handleFile\<close> makes on the name of a file, and the notion the specification
  speaks of: the extension of a file name and whether it is an accepted one.
\<close>

definition format_test :: "File \<Rightarrow> bool" where
  \<comment> \<open>the first test of \<open>handleFile\<close>, as the code writes it:
      \<^verbatim>\<open>["mp4", "mov", "webm"].includes(ext || "")\<close> for
      \<^verbatim>\<open>ext = f.name.split(".").pop()?.toLowerCase()\<close>\<close>
  "format_test f =
     includes_elem [''mp4'', ''mov'', ''webm'']
       (case map_option toLowerCase (pop (split CHR ''.'' (name f))) of
          None \<Rightarrow> '''' | Some e \<Rightarrow> e)"

definition extension :: "string \<Rightarrow> string option" where
  \<comment> \<open>the filename extension: the text after the last dot of the name; a name without a
      dot has no extension\<close>
  "extension s =
     (if CHR ''.'' \<in> set s then Some (rev (takeWhile (\<lambda>c. c \<noteq> CHR ''.'') (rev s)))
      else None)"

definition accepted_extension :: "File \<Rightarrow> bool" where
  \<comment> \<open>the file has an extension and, compared case-insensitively, it is mp4, mov or webm\<close>
  "accepted_extension f =
     (case extension (name f) of
        None \<Rightarrow> False
      | Some e \<Rightarrow> toLowerCase e \<in> {''mp4'', ''mov'', ''webm''})"

definition upload_form :: "File \<Rightarrow> request" where
  \<comment> \<open>a POST of a multipart form whose only field is \<^verbatim>\<open>file\<close>\<close>
  "upload_form f = \<lparr> path = ''/analyze'', method_of = ''POST'', form = [(''file'', f)] \<rparr>"

definition upload_ok :: "File \<Rightarrow> bool" where
  \<comment> \<open>the two tests a file passes before \<open>handleFile\<close> stores it\<close>
  "upload_ok f = (format_test f \<and> size_bytes f \<le> MAX_SIZE_MB * 1024 * 1024)"

definition page_invariant :: "Home \<Rightarrow> bool" where
  "page_invariant h =
     ((\<forall>f. file h = Some f \<longrightarrow> upload_ok f) \<and>
      (\<forall>r \<in> set (sent h). \<exists>f. r = upload_form f \<and> upload_ok f) \<and>
      activeStep h \<le> length PIPELINE_STEPS - 1)"

text \<open>
  The success payload of \<^verbatim>\<open>POST /analyze\<close>: the JSON object a response of type
  \<^verbatim>\<open>AnalyzeResponse\<close> is sent as.
\<close>

definition FailureEvent_json :: "FailureEvent \<Rightarrow> json" where
  "FailureEvent_json f =
     JObj [(''timestamp_seconds'', JNum (timestamp_seconds f)),
           (''title'', JStr (title f)),
           (''expected'', JStr (expected f)),
           (''actual'', JStr (actual f)),
           (''evidence'', JStr (evidence f)),
           (''confidence'', JNum (confidence f))]"

definition AnalyzeResponse_json :: "AnalyzeResponse \<Rightarrow> json" where
  "AnalyzeResponse_json r = JObj [(''failures'', JArr (map FailureEvent_json (failures r)))]"

section \<open>The analysis pipeline\<close>

text \<open>
  The server behind \<^verbatim>\<open>POST /analyze\<close> (the directory \<^verbatim>\<open>api/\<close> of the repository) is
  not among the sources; the client, the Makefile and the project notes only call or
  describe it. Its stages from the transcript on are modelled from the specification.
  Timestamps and confidences are exact rationals. The reasoning backend is a state
  transformer, so that two calls with the same prompt may answer differently and the calls
  can be counted.
\<close>

text \<open>Modelled from the spec: TranscriptSegment, \<^verbatim>\<open>{start, end, text}\<close> with times in seconds.\<close>

record TranscriptSegment =
  seg_start :: rat
  seg_end :: rat
  seg_text :: string

text \<open>Modelled from the spec: ContextWindow, the segments around one candidate and the
  position of the candidate among them.\<close>

record ContextWindow =
  segments :: "TranscriptSegment list"
  center_index :: nat

text \<open>Modelled from the spec: the fixed failure-signal vocabulary of the Candidate
  Detector.\<close>

definition failure_signals :: "string list" where
  "failure_signals =
     [''doesn'' @ [CHR 0x27] @ ''t'', ''does not'', ''nothing happens'', ''broken'', ''error'',
      ''bug'', ''fails'', ''wrong'', ''stuck'', ''crash'', ''not working'', ''issue'',
      ''problem'']"

text \<open>Modelled from the spec: substring matching, not tokenized, used by the Candidate
  Detector.\<close>

fun contains :: "string \<Rightarrow> string \<Rightarrow> bool" where
  "contains [] k = (k = [])"
| "contains (c # cs) k = (take (length k) (c # cs) = k \<or> contains cs k)"

text \<open>Modelled from the spec: the Candidate Detector; a segment is a candidate if its text
  contains, case-insensitively, a word of the vocabulary. The result lists the indices of
  the candidates in transcript order.\<close>

definition detect_candidates :: "TranscriptSegment list \<Rightarrow> nat list" where
  "detect_candidates ts =
     filter (\<lambda>i. \<exists>k \<in> set failure_signals. contains (toLowerCase (seg_text (ts ! i))) k)
       [0 ..< length ts]"

text \<open>Modelled from the spec: the Window Builder; the segments
  \<^verbatim>\<open>[max(0, idx-2), min(len-1, idx+2)]\<close> inclusive, with the centre recorded relative to
  the window.\<close>

definition build_window :: "TranscriptSegment list \<Rightarrow> nat \<Rightarrow> ContextWindow" where
  "build_window ts idx =
     (let lo = idx - 2; hi = min (length ts - 1) (idx + 2)
      in \<lparr> segments = take (hi + 1 - lo) (drop lo ts), center_index = idx - lo \<rparr>)"

text \<open>Modelled from the spec: the two requests of the Extraction Engine, the initial one
  and the repair retry that carries a description of the validation error.\<close>

datatype prompt =
    Initial ContextWindow
  | Repair ContextWindow string

text \<open>Modelled from the spec: what one call of the extraction backend gives back: a
  transport-level failure, a text that is not JSON, or a JSON value.\<close>

datatype reply =
    TransportFailure
  | NotJson
  | Parsed json

text \<open>Modelled from the spec: validation of a parsed reply (step 2 of the Extraction
  Engine): an array whose elements have every required field with the correct type and a
  confidence in \<open>[0, 1]\<close>. \<open>Inl\<close> carries the description of the error.\<close>

definition validate :: "json \<Rightarrow> string + FailureEvent list" where
  "validate j =
     (case j of
        JArr xs \<Rightarrow>
          (case those (map as_FailureEvent xs) of
             None \<Rightarrow> Inl ''a required field is missing or has the wrong type''
           | Some es \<Rightarrow>
               if list_all (\<lambda>e. 0 \<le> confidence e \<and> confidence e \<le> 1) es then Inr es
               else Inl ''confidence is out of range'')
      | _ \<Rightarrow> Inl ''the response is not an array'')"

text \<open>Modelled from the spec: a transport-level failure is treated the same as a
  validation failure (step 5 of the Extraction Engine).\<close>

definition check_reply :: "reply \<Rightarrow> string + FailureEvent list" where
  "check_reply r =
     (case r of
        TransportFailure \<Rightarrow> Inl ''the call failed''
      | NotJson \<Rightarrow> Inl ''the response is not JSON''
      | Parsed j \<Rightarrow> validate j)"

text \<open>Modelled from the spec: the Extraction Engine on one window, a strict two-attempt
  policy: one initial call, on failure exactly one repair call, and on a second failure the
  window is skipped with zero events. The result is the events, the calls made in order,
  and the state the backend is left in.\<close>

definition extract_window ::
  "(prompt \<Rightarrow> 'b \<Rightarrow> reply \<times> 'b) \<Rightarrow> ContextWindow \<Rightarrow> 'b \<Rightarrow> FailureEvent list \<times> prompt list \<times> 'b"
where
  "extract_window backend w st =
     (let (r1, st1) = backend (Initial w) st
      in case check_reply r1 of
           Inr es \<Rightarrow> (es, [Initial w], st1)
         | Inl err \<Rightarrow>
             (let (r2, st2) = backend (Repair w err) st1
              in case check_reply r2 of
                   Inr es \<Rightarrow> (es, [Initial w, Repair w err], st2)
                 | Inl err2 \<Rightarrow> ([], [Initial w, Repair w err], st2)))"

text \<open>Modelled from the spec: the Orchestrator runs the Extraction Engine per candidate and
  hands the events to the Merger in the original candidate order.\<close>

fun extract_all ::
  "(prompt \<Rightarrow> 'b \<Rightarrow> reply \<times> 'b) \<Rightarrow> ContextWindow list \<Rightarrow> 'b \<Rightarrow> FailureEvent list \<times> prompt list \<times> 'b"
where
  "extract_all backend [] st = ([], [], st)"
| "extract_all backend (w # ws) st =
     (let (es, cs, st1) = extract_window backend w st;
          (es', cs', st2) = extract_all backend ws st1
      in (es @ es', cs @ cs', st2))"

text \<open>Modelled from the spec: the duplicate predicate of the Merger; the title similarity
  test is left to the implementation by the specification and is a parameter here.\<close>

definition duplicate :: "(string \<Rightarrow> string \<Rightarrow> bool) \<Rightarrow> FailureEvent \<Rightarrow> FailureEvent \<Rightarrow> bool" where
  "duplicate similar a b =
     (\<bar>timestamp_seconds a - timestamp_seconds b\<bar> \<le> 30 \<and> similar (title a) (title b))"

text \<open>Modelled from the spec: one step of the greedy merge; the new candidate \<open>c\<close> is
  compared against the already-accepted events. Of two duplicates the one with higher
  confidence is kept, the earlier-produced one on a tie, and no two events of the result
  may be duplicates: so \<open>c\<close> is accepted when its confidence is strictly higher than that
  of every accepted event it duplicates (in particular when it duplicates none), and these
  events are dropped; otherwise \<open>c\<close> is dropped. The accepted events stay in the order in
  which they were produced.\<close>

definition absorb ::
  "(string \<Rightarrow> string \<Rightarrow> bool) \<Rightarrow> FailureEvent \<Rightarrow> FailureEvent list \<Rightarrow> FailureEvent list"
where
  "absorb similar c accepted =
     (if list_all (\<lambda>a. confidence a < confidence c)
           (filter (\<lambda>a. duplicate similar a c) accepted)
      then filter (\<lambda>a. \<not> duplicate similar a c) accepted @ [c]
      else accepted)"

text \<open>Modelled from the spec: the Merger, over the candidates in processing order.\<close>

definition merge :: "(string \<Rightarrow> string \<Rightarrow> bool) \<Rightarrow> FailureEvent list \<Rightarrow> FailureEvent list" where
  "merge similar cs = foldl (\<lambda>accepted c. absorb similar c accepted) [] cs"

text \<open>Modelled from the spec: the rule of the Merger read over all pairs of candidates:
  of any two candidates that are duplicates, the result \<open>out\<close> keeps the one with higher
  confidence and drops the other.\<close>

definition keeps_higher ::
  "(string \<Rightarrow> string \<Rightarrow> bool) \<Rightarrow> FailureEvent list \<Rightarrow> FailureEvent list \<Rightarrow> bool"
where
  "keeps_higher similar cs out =
     (\<forall>x \<in> set cs. \<forall>y \<in> set cs.
        duplicate similar x y \<and> confidence x < confidence y \<longrightarrow> y \<in> set out \<and> x \<notin> set out)"

text \<open>Modelled from the spec: the final ordering, a stable sort ascending by
  \<^verbatim>\<open>timestamp_seconds\<close>.\<close>

definition final_order :: "FailureEvent list \<Rightarrow> FailureEvent list" where
  "final_order es = sort_key timestamp_seconds es"

text \<open>Modelled from the spec: the errors that are fatal to a request.\<close>

datatype pipeline_error = MediaError | TranscriptionError

text \<open>Modelled from the spec: the Orchestrator from the transcript on: candidates, windows,
  extraction, the defensive drop of events outside the duration of the video, merge, final
  order. It also returns the backend calls made.\<close>

definition analyze_transcript ::
  "(prompt \<Rightarrow> 'b \<Rightarrow> reply \<times> 'b) \<Rightarrow> (string \<Rightarrow> string \<Rightarrow> bool) \<Rightarrow> rat \<Rightarrow> TranscriptSegment list \<Rightarrow> 'b
     \<Rightarrow> AnalyzeResponse \<times> prompt list \<times> 'b"
where
  "analyze_transcript backend similar duration ts st =
     (let windows = map (build_window ts) (detect_candidates ts);
          (events, calls, st') = extract_all backend windows st;
          in_range = filter (\<lambda>e. 0 \<le> timestamp_seconds e \<and> timestamp_seconds e \<le> duration)
                       events
      in (\<lparr> failures = final_order (merge similar in_range) \<rparr>, calls, st'))"

text \<open>Modelled from the spec: the Orchestrator; audio extraction and transcription are
  external collaborators that either fail the request or hand on their result. The
  release of temporary files is not modelled.\<close>

definition run_pipeline ::
  "('u \<Rightarrow> pipeline_error + 'a) \<Rightarrow> ('a \<Rightarrow> pipeline_error + TranscriptSegment list)
     \<Rightarrow> (prompt \<Rightarrow> 'b \<Rightarrow> reply \<times> 'b) \<Rightarrow> (string \<Rightarrow> string \<Rightarrow> bool) \<Rightarrow> rat \<Rightarrow> 'u \<Rightarrow> 'b
     \<Rightarrow> (pipeline_error + AnalyzeResponse) \<times> prompt list \<times> 'b"
where
  "run_pipeline extract_audio transcribe backend similar duration upload st =
     (case extract_audio upload of
        Inl e \<Rightarrow> (Inl e, [], st)
      | Inr audio \<Rightarrow>
          (case transcribe audio of
             Inl e \<Rightarrow> (Inl e, [], st)
           | Inr ts \<Rightarrow>
               (let (r, calls, st') = analyze_transcript backend similar duration ts st
                in (Inr r, calls, st'))))"

section \<open>Rounding to binary64\<close>

text \<open>
  The exponent function is correct, the rounded value is within half a spacing of the exact
  one, and rounding never crosses an integer of magnitude up to \<open>2^53\<close>. It follows that
  for a binary64 value \<open>s\<close> below \<open>2^53\<close> the rounded quotient \<^verbatim>\<open>s / 60\<close> has the same
  integer part as the exact one.
\<close>

lemma bitlen_pos: "0 < a \<Longrightarrow> 1 \<le> bitlen a"
  using bitlen_eq_zero_iff[of a] bitlen_nonneg[of a] by linarith

lemma pow_bitlen:
  assumes "0 < a"
  shows "(2::rat) powi (bitlen a - 1) \<le> of_int a" "of_int a < (2::rat) powi bitlen a"
proof -
  from bitlen_bounds[OF assms] have 1: "2 ^ nat (bitlen a - 1) \<le> a" and 2: "a < 2 ^ nat (bitlen a)"
    by simp_all
  have l: "0 \<le> bitlen a - 1" "0 \<le> bitlen a" using bitlen_pos[OF assms] by simp_all
  have "(of_int (2 ^ nat (bitlen a - 1)) :: rat) \<le> of_int a" using 1 by (simp only: of_int_le_iff)
  then show "(2::rat) powi (bitlen a - 1) \<le> of_int a"
    using l by (simp add: power_int_nonneg_exp)
  have "(of_int a :: rat) < of_int (2 ^ nat (bitlen a))" using 2 by (simp only: of_int_less_iff)
  then show "of_int a < (2::rat) powi bitlen a"
    using l by (simp add: power_int_nonneg_exp)
qed

lemma ilog2_bounds:
  assumes "q \<noteq> 0"
  shows "2 powi ilog2 q \<le> \<bar>q\<bar> \<and> \<bar>q\<bar> < 2 powi (ilog2 q + 1)"
proof -
  obtain a b where ab: "quotient_of \<bar>q\<bar> = (a, b)" by (cases "quotient_of \<bar>q\<bar>")
  have b: "0 < b" using quotient_of_denom_pos[OF ab] .
  have q: "\<bar>q\<bar> = of_int a / of_int b" using quotient_of_div[OF ab] .
  have "0 < \<bar>q\<bar>" using assms by simp
  then have a: "0 < a" using q b by (simp add: zero_less_divide_iff)
  define d where "d = bitlen a - bitlen b"
  note A = pow_bitlen[OF a] and B = pow_bitlen[OF b]
  have bp: "(0::rat) < 2 powi (bitlen b - 1)" "(0::rat) < of_int b" using b by simp_all
  have "\<bar>q\<bar> < 2 powi bitlen a / 2 powi (bitlen b - 1)"
    unfolding q using A(2) B(1) a bp by (intro frac_less) simp_all
  also have "\<dots> = 2 powi (d + 1)"
    by (simp add: d_def power_int_diff[symmetric] algebra_simps)
  finally have up: "\<bar>q\<bar> < 2 powi (d + 1)" .
  have "2 powi (bitlen a - 1) / 2 powi bitlen b \<le> \<bar>q\<bar>"
    unfolding q using A(1) B(2) a bp by (intro frac_le) simp_all
  moreover have "2 powi (bitlen a - 1) / 2 powi bitlen b = (2::rat) powi (d - 1)"
    by (simp add: d_def power_int_diff[symmetric] algebra_simps)
  ultimately have lo: "2 powi (d - 1) \<le> \<bar>q\<bar>" by simp
  have i: "ilog2 q = (if 2 powi d \<le> \<bar>q\<bar> then d else d - 1)"
    by (simp add: ilog2_def ab d_def Let_def)
  show ?thesis
  proof (cases "2 powi d \<le> \<bar>q\<bar>")
    case True
    then show ?thesis using up i by simp
  next
    case False
    then show ?thesis using lo i by simp
  qed
qed

lemma ilog2_less: "q \<noteq> 0 \<Longrightarrow> \<bar>q\<bar> < 2 powi n \<Longrightarrow> ilog2 q < n"
proof (rule ccontr)
  assume q: "q \<noteq> 0" "\<bar>q\<bar> < 2 powi n" and "\<not> ilog2 q < n"
  then have "(2::rat) powi n \<le> 2 powi ilog2 q" by (intro power_int_increasing) simp_all
  then show False using ilog2_bounds[OF q(1)] q(2) by linarith
qed

lemma ilog2_ge: "q \<noteq> 0 \<Longrightarrow> 2 powi n \<le> \<bar>q\<bar> \<Longrightarrow> n \<le> ilog2 q"
proof (rule ccontr)
  assume q: "q \<noteq> 0" "2 powi n \<le> \<bar>q\<bar>" and "\<not> n \<le> ilog2 q"
  then have "ilog2 q + 1 \<le> n" by simp
  then have "(2::rat) powi (ilog2 q + 1) \<le> 2 powi n" by (intro power_int_increasing) simp_all
  then show False using ilog2_bounds[OF q(1)] q(2) by linarith
qed

lemma roundTiesToEven_cases: "roundTiesToEven x = \<lfloor>x\<rfloor> \<or> roundTiesToEven x = \<lfloor>x\<rfloor> + 1"
  by (simp add: roundTiesToEven_def Let_def)

lemma roundTiesToEven_ge: "of_int z \<le> x \<Longrightarrow> z \<le> roundTiesToEven x"
  using roundTiesToEven_cases[of x] le_floor_iff[of z x] by linarith

lemma roundTiesToEven_of_int: "roundTiesToEven (of_int z) = z"
  by (simp add: roundTiesToEven_def)

lemma roundTiesToEven_le: "x \<le> of_int z \<Longrightarrow> roundTiesToEven x \<le> z"
proof (cases "x = of_int z")
  case True
  then show ?thesis by (simp add: roundTiesToEven_of_int)
next
  case False
  assume "x \<le> of_int z"
  with False have "x < of_int z" by simp
  then have "\<lfloor>x\<rfloor> < z" by (simp add: floor_less_iff)
  then show ?thesis using roundTiesToEven_cases[of x] by linarith
qed

lemma roundTiesToEven_error: "\<bar>of_int (roundTiesToEven x) - x\<bar> \<le> 1 / 2"
proof -
  have "of_int \<lfloor>x\<rfloor> \<le> x" "x < of_int \<lfloor>x\<rfloor> + 1" by linarith+
  then show ?thesis
    by (auto simp: roundTiesToEven_def Let_def abs_le_iff)
qed

lemma ulp_pos: "0 < ulp q"
  by (simp add: ulp_def)

lemma binary64_error: "\<bar>binary64 q - q\<bar> \<le> ulp q / 2"
proof (cases "q = 0")
  case True
  then show ?thesis using ulp_pos[of q] by (simp add: binary64_def)
next
  case False
  have "binary64 q - q = (of_int (roundTiesToEven (q / ulp q)) - q / ulp q) * ulp q"
    using False ulp_pos[of q] by (simp add: binary64_def algebra_simps)
  then have "\<bar>binary64 q - q\<bar> = \<bar>of_int (roundTiesToEven (q / ulp q)) - q / ulp q\<bar> * ulp q"
    using ulp_pos[of q] by (simp add: abs_mult)
  also have "\<dots> \<le> 1 / 2 * ulp q"
    using roundTiesToEven_error[of "q / ulp q"] ulp_pos[of q]
    by (intro mult_right_mono) simp_all
  finally show ?thesis by simp
qed

lemma ulp_inverse:
  assumes "ilog2 q \<le> 52"
  shows "1 / ulp q = 2 ^ nat (52 - max (ilog2 q) (- 1022))"
proof -
  have "0 \<le> 52 - max (ilog2 q) (- 1022)" using assms by simp
  then have "(2::rat) ^ nat (52 - max (ilog2 q) (- 1022)) = 2 powi (52 - max (ilog2 q) (- 1022))"
    by (simp add: power_int_nonneg_exp)
  also have "\<dots> = 1 / ulp q"
    by (simp add: ulp_def power_int_diff power_int_minus_divide)
  finally show ?thesis by simp
qed

lemma int_over_ulp:
  assumes "ilog2 q \<le> 52"
  shows "of_int k / ulp q = of_int (k * 2 ^ nat (52 - max (ilog2 q) (- 1022)))"
proof -
  have "of_int k / ulp q = of_int k * (1 / ulp q)" by simp
  also have "\<dots> = of_int k * 2 ^ nat (52 - max (ilog2 q) (- 1022))"
    by (simp only: ulp_inverse[OF assms])
  finally show ?thesis by simp
qed

lemma binary64_ge_int:
  assumes "q \<noteq> 0" "ilog2 q \<le> 52" "of_int k \<le> q"
  shows "of_int k \<le> binary64 q"
proof -
  let ?n = "nat (52 - max (ilog2 q) (- 1022))"
  have "of_int k / ulp q \<le> q / ulp q"
    using assms(3) ulp_pos[of q] by (simp add: divide_right_mono)
  then have "of_int (k * 2 ^ ?n) \<le> q / ulp q"
    by (simp only: int_over_ulp[OF assms(2)])
  then have "k * 2 ^ ?n \<le> roundTiesToEven (q / ulp q)"
    by (rule roundTiesToEven_ge)
  then have "(of_int (k * 2 ^ ?n) :: rat) \<le> of_int (roundTiesToEven (q / ulp q))"
    by (simp only: of_int_le_iff)
  then have le: "of_int (k * 2 ^ ?n) * ulp q \<le> of_int (roundTiesToEven (q / ulp q)) * ulp q"
    using ulp_pos[of q] by (intro mult_right_mono) simp_all
  have "of_int (k * 2 ^ ?n) = of_int k / ulp q"
    by (simp only: int_over_ulp[OF assms(2)])
  then have "of_int k = of_int (k * 2 ^ ?n) * ulp q"
    using ulp_pos[of q] by simp
  also note le
  also have "of_int (roundTiesToEven (q / ulp q)) * ulp q = binary64 q"
    using assms(1) by (simp add: binary64_def)
  finally show ?thesis .
qed

lemma binary64_le_int:
  assumes "q \<noteq> 0" "ilog2 q \<le> 52" "q \<le> of_int k"
  shows "binary64 q \<le> of_int k"
proof -
  let ?n = "nat (52 - max (ilog2 q) (- 1022))"
  have "q / ulp q \<le> of_int k / ulp q"
    using assms(3) ulp_pos[of q] by (simp add: divide_right_mono)
  then have "q / ulp q \<le> of_int (k * 2 ^ ?n)"
    by (simp only: int_over_ulp[OF assms(2)])
  then have "roundTiesToEven (q / ulp q) \<le> k * 2 ^ ?n"
    by (rule roundTiesToEven_le)
  then have "(of_int (roundTiesToEven (q / ulp q)) :: rat) \<le> of_int (k * 2 ^ ?n)"
    by (simp only: of_int_le_iff)
  then have le: "of_int (roundTiesToEven (q / ulp q)) * ulp q \<le> of_int (k * 2 ^ ?n) * ulp q"
    using ulp_pos[of q] by (intro mult_right_mono) simp_all
  have "of_int (k * 2 ^ ?n) = of_int k / ulp q"
    by (simp only: int_over_ulp[OF assms(2)])
  then have e: "of_int (k * 2 ^ ?n) * ulp q = of_int k"
    using ulp_pos[of q] by simp
  have "binary64 q = of_int (roundTiesToEven (q / ulp q)) * ulp q"
    using assms(1) by (simp add: binary64_def)
  also note le
  also note e
  finally show ?thesis .
qed

lemma floor_js_div_60:
  assumes rep: "binary64 s = s" and nonneg: "0 \<le> s" and bound: "s < 2 ^ 53"
  shows "\<lfloor>js_div s 60\<rfloor> = \<lfloor>s / 60\<rfloor>"
proof (cases "s = 0")
  case True
  then show ?thesis by (simp add: js_div_def binary64_def)
next
  case False
  define q where "q = s / 60"
  define k where "k = \<lfloor>q\<rfloor>"
  have s: "0 < s" using False nonneg by simp
  then have q: "0 < q" "q \<noteq> 0" by (simp_all add: q_def)
  have "\<bar>q\<bar> < 2 powi 53" using bound s by (simp add: q_def)
  then have eq52: "ilog2 q \<le> 52" using ilog2_less[OF q(2), of 53] by simp
  have kq: "of_int k \<le> q" "q < of_int k + 1" by (simp_all add: k_def) linarith
  have lower: "of_int k \<le> binary64 q"
    by (rule binary64_ge_int[OF q(2) eq52 kq(1)])
  have upper: "binary64 q < of_int k + 1"
  proof (rule ccontr)
    assume "\<not> binary64 q < of_int k + 1"
    moreover have "binary64 q \<le> of_int (k + 1)"
      using kq(2) by (intro binary64_le_int[OF q(2) eq52]) simp
    ultimately have b: "binary64 q = of_int k + 1" by simp
    have "\<bar>of_int k + 1 - q\<bar> \<le> ulp q / 2"
      using binary64_error[of q] by (simp only: b)
    then have close: "of_int k + 1 - q \<le> ulp q / 2"
      by linarith
    show False
    proof (cases "s < 1")
      case True
      then have q1: "q < 1 / 60" by (simp add: q_def)
      then have "\<bar>q\<bar> < 2 powi 0" using q(1) by simp
      then have "ilog2 q < 0" by (rule ilog2_less[OF q(2)])
      then have "ulp q \<le> 2 powi 0"
        unfolding ulp_def by (intro power_int_increasing) simp_all
      then have "ulp q \<le> 1" by simp
      moreover have "0 \<le> k" using q(1) by (simp add: k_def)
      then have "(0::rat) \<le> of_int k" by simp
      ultimately show False using close q1 by linarith
    next
      case False
      then have s1: "1 \<le> s" by simp
      have sn: "s \<noteq> 0" using s by simp
      have es0: "0 \<le> ilog2 s" using s1 s by (intro ilog2_ge[OF sn]) simp
      have "\<bar>s\<bar> < 2 powi 53" using bound s by simp
      then have es52: "ilog2 s \<le> 52" using ilog2_less[OF sn, of 53] by simp
      have "(2::rat) powi (- 6) \<le> \<bar>q\<bar>"
        using s1 by (simp add: q_def power_int_minus_divide)
      then have eq6: "- 6 \<le> ilog2 q" by (rule ilog2_ge[OF q(2)])
      have "s < 2 powi (ilog2 s + 1)" using ilog2_bounds[OF sn] s by simp
      then have "q < 2 powi (ilog2 s + 1) / 32" using s by (simp add: q_def)
      also have "\<dots> = 2 powi (ilog2 s + 1) / 2 powi 5" by simp
      also have "\<dots> = 2 powi (ilog2 s + 1 - 5)"
        by (rule power_int_diff[symmetric]) simp
      also have "ilog2 s + 1 - 5 = ilog2 s - 4" by simp
      finally have "\<bar>q\<bar> < 2 powi (ilog2 s - 4)" using q(1) by simp
      then have eqs: "ilog2 q \<le> ilog2 s - 5" using ilog2_less[OF q(2), of "ilog2 s - 4"] by simp
      have us: "ulp s = 2 powi (ilog2 s - 52)" using es0 by (simp add: ulp_def)
      have "ulp q = 2 powi (ilog2 q - 52)" using eq6 by (simp add: ulp_def max_def)
      also have "\<dots> \<le> 2 powi (ilog2 s - 57)"
        using eqs by (intro power_int_increasing) simp_all
      also have "ilog2 s - 57 = ilog2 s - 52 - 5" by simp
      also have "(2::rat) powi (ilog2 s - 52 - 5) = 2 powi (ilog2 s - 52) / 2 powi 5"
        by (rule power_int_diff) simp
      finally have uq: "32 * ulp q \<le> ulp s" using us by simp
      let ?n = "nat (52 - max (ilog2 s) (- 1022))"
      define m where "m = roundTiesToEven (s / ulp s)"
      have sm: "s = of_int m * ulp s"
        using rep sn by (simp add: binary64_def m_def)
      have "of_int (60 * (k + 1) * 2 ^ ?n) = of_int (60 * (k + 1)) / ulp s"
        by (simp only: int_over_ulp[OF es52])
      then have km: "of_int (60 * (k + 1)) = of_int (60 * (k + 1) * 2 ^ ?n) * ulp s"
        using ulp_pos[of s] by simp
      define j where "j = 60 * (k + 1) * 2 ^ ?n - m"
      have "of_int (60 * (k + 1)) - s = of_int j * ulp s"
        unfolding j_def by (subst km, subst (3) sm) (simp add: algebra_simps)
      moreover have "s < of_int (60 * (k + 1))" using kq(2) by (simp add: q_def)
      ultimately have "0 < of_int j * ulp s" by simp
      then have "(0::rat) < of_int j" using ulp_pos[of s] by (simp add: zero_less_mult_iff)
      then have "1 \<le> j" by simp
      then have "(1::rat) \<le> of_int j" by simp
      then have "1 * ulp s \<le> of_int j * ulp s"
        using ulp_pos[of s] by (intro mult_right_mono) simp_all
      then have "ulp s \<le> of_int (60 * (k + 1)) - s"
        using \<open>of_int (60 * (k + 1)) - s = of_int j * ulp s\<close> by simp
      also have "\<dots> = 60 * (of_int k + 1 - q)" by (simp add: q_def)
      also have "\<dots> \<le> 60 * (ulp q / 2)" using close by simp
      finally have "ulp s \<le> 30 * ulp q" by simp
      then show False using uq ulp_pos[of q] by linarith
    qed
  qed
  have "\<lfloor>binary64 q\<rfloor> = k"
    using lower upper by (simp add: floor_unique)
  then show ?thesis by (simp add: js_div_def q_def k_def)
qed


section \<open>Timestamps\<close>

lemma js_rem_nonneg_range:
  assumes "0 \<le> a" "0 < b"
  shows "0 \<le> js_rem a b \<and> js_rem a b < b"
proof -
  have q: "0 \<le> a / b" using assms by simp
  have eq: "js_rem a b = a - b * of_int \<lfloor>a / b\<rfloor>"
    using q by (simp add: js_rem_def Let_def)
  have lo: "of_int \<lfloor>a / b\<rfloor> \<le> a / b" by simp
  have hi: "a / b < of_int \<lfloor>a / b\<rfloor> + 1" by linarith
  have "b * of_int \<lfloor>a / b\<rfloor> \<le> b * (a / b)"
    using lo assms(2) by (simp only: mult_le_cancel_left_pos)
  then have l: "b * of_int \<lfloor>a / b\<rfloor> \<le> a" using assms(2) by simp
  have "b * (a / b) < b * (of_int \<lfloor>a / b\<rfloor> + 1)"
    using hi assms(2) by (simp only: mult_less_cancel_left_pos)
  then have h: "a < b * of_int \<lfloor>a / b\<rfloor> + b" using assms(2) by (simp add: algebra_simps)
  show ?thesis using l h eq by simp
qed

lemma digit_zero: "digit 0 = CHR ''0''"
  by code_simp

lemma decimal_one_digit: "i < 10 \<Longrightarrow> decimal i = [digit i]"
  by (simp add: decimal.simps)

lemma decimal_two_digits:
  "10 \<le> i \<Longrightarrow> i < 100 \<Longrightarrow> decimal i = [digit (i div 10), digit (i mod 10)]"
  by (subst decimal.simps) (simp add: decimal.simps)

lemma padStart_two_digits:
  assumes "0 \<le> i" "i < 100"
  shows "padStart 2 CHR ''0'' (decimal i) = [digit (i div 10), digit (i mod 10)]"
proof (cases "i < 10")
  case True
  then show ?thesis
    using assms by (simp add: padStart_def decimal_one_digit digit_zero)
next
  case False
  then show ?thesis
    using assms by (simp add: padStart_def decimal_two_digits)
qed

lemma roundTiesToEven_nonneg: "0 \<le> x \<Longrightarrow> 0 \<le> roundTiesToEven x"
  by (simp add: roundTiesToEven_def Let_def)

lemma binary64_nonneg: "0 \<le> q \<Longrightarrow> 0 \<le> binary64 q"
  using ulp_pos[of q] by (simp add: binary64_def roundTiesToEven_nonneg)

lemma js_rem_60: "0 \<le> s \<Longrightarrow> js_rem s 60 = s - 60 * of_int \<lfloor>s / 60\<rfloor>"
  by (simp add: js_rem_def Let_def)

lemma toString_small: "0 \<le> i \<Longrightarrow> i < 2 ^ 53 \<Longrightarrow> toString i = decimal i"
  by (simp add: toString_def numberDigits_def)

text \<open>
  Claim C10. For every non-negative number of seconds \<open>s\<close>, \<open>formatTimestamp s\<close> is the
  text of the number \<^verbatim>\<open>Math.floor(s / 60)\<close>, a colon, and \<^verbatim>\<open>Math.floor(s % 60)\<close> padded
  with zeros to two digits. The remainder \<^verbatim>\<open>s % 60\<close> is \<open>s - 60 * \<lfloor>s / 60\<rfloor>\<close>, so the
  seconds part is always exactly two digits and their value is below 60. The quotient
  \<^verbatim>\<open>s / 60\<close> is the binary64 one and its text is the one JavaScript prints: for a binary64
  value \<open>s\<close> below \<open>2^53\<close> the minutes part is the decimal numeral of \<open>\<lfloor>s / 60\<rfloor>\<close>.
\<close>

theorem formatTimestamp_shape:
  assumes "0 \<le> s"
  shows "formatTimestamp s
           = toString \<lfloor>js_div s 60\<rfloor> @ '':''
             @ [digit (\<lfloor>js_rem s 60\<rfloor> div 10), digit (\<lfloor>js_rem s 60\<rfloor> mod 10)]
         \<and> 0 \<le> \<lfloor>js_rem s 60\<rfloor> \<and> \<lfloor>js_rem s 60\<rfloor> < 60
         \<and> js_rem s 60 = s - 60 * of_int \<lfloor>s / 60\<rfloor>
         \<and> (binary64 s = s \<and> s < 2 ^ 53 \<longrightarrow>
              formatTimestamp s
                = decimal \<lfloor>s / 60\<rfloor> @ '':''
                  @ [digit (\<lfloor>js_rem s 60\<rfloor> div 10), digit (\<lfloor>js_rem s 60\<rfloor> mod 10)])"
proof -
  have r: "0 \<le> js_rem s 60 \<and> js_rem s 60 < 60"
    using js_rem_nonneg_range[of s 60] assms by simp
  then have k: "0 \<le> \<lfloor>js_rem s 60\<rfloor>" "\<lfloor>js_rem s 60\<rfloor> < 60"
    by (simp_all add: floor_less_iff)
  then have "\<lfloor>js_rem s 60\<rfloor> < 2 ^ 53" by simp
  then have "toString \<lfloor>js_rem s 60\<rfloor> = decimal \<lfloor>js_rem s 60\<rfloor>"
    using k(1) by (simp only: toString_small)
  then have "formatTimestamp s
          = toString \<lfloor>js_div s 60\<rfloor> @ '':'' @ padStart 2 CHR ''0'' (decimal \<lfloor>js_rem s 60\<rfloor>)"
    by (simp add: formatTimestamp_def Math_floor_def Let_def)
  also have "padStart 2 CHR ''0'' (decimal \<lfloor>js_rem s 60\<rfloor>)
          = [digit (\<lfloor>js_rem s 60\<rfloor> div 10), digit (\<lfloor>js_rem s 60\<rfloor> mod 10)]"
    using k by (intro padStart_two_digits) simp_all
  finally have f: "formatTimestamp s
           = toString \<lfloor>js_div s 60\<rfloor> @ '':''
             @ [digit (\<lfloor>js_rem s 60\<rfloor> div 10), digit (\<lfloor>js_rem s 60\<rfloor> mod 10)]" .
  have x: "formatTimestamp s
             = decimal \<lfloor>s / 60\<rfloor> @ '':''
               @ [digit (\<lfloor>js_rem s 60\<rfloor> div 10), digit (\<lfloor>js_rem s 60\<rfloor> mod 10)]"
    if b: "binary64 s = s" and l: "s < 2 ^ 53"
  proof -
    have e: "\<lfloor>js_div s 60\<rfloor> = \<lfloor>s / 60\<rfloor>"
      using floor_js_div_60[of s] assms b l by blast
    have "0 \<le> s / 60" using assms by simp
    then have m0: "0 \<le> \<lfloor>s / 60\<rfloor>" by simp
    have "s / 60 \<le> s" using assms by simp
    then have "s / 60 < 2 ^ 53" using l by linarith
    then have "\<lfloor>s / 60\<rfloor> < 2 ^ 53" by (simp add: floor_less_iff)
    then have "toString \<lfloor>s / 60\<rfloor> = decimal \<lfloor>s / 60\<rfloor>"
      using m0 by (simp only: toString_small)
    then show ?thesis using f e by simp
  qed
  show ?thesis using f k js_rem_60[OF assms] x by blast
qed

text \<open>
  The minutes part is not always the numeral of \<open>\<lfloor>s / 60\<rfloor>\<close>. For the binary64 value
  \<open>s = 67553994410557496\<close> the quotient \<open>1125899906842624.93...\<close> rounds up to the
  binary64 value \<open>1125899906842625\<close>, one more than \<open>\<lfloor>s / 60\<rfloor>\<close>. For \<open>s = 10^19\<close> the
  quotient is the binary64 value \<open>166666666666666656\<close>, which JavaScript prints as
  \<^verbatim>\<open>166666666666666660\<close>, while \<open>\<lfloor>s / 60\<rfloor> = 166666666666666666\<close>; and for
  \<open>s = 6 * 10^22\<close> the minutes are printed in exponent form.
\<close>

theorem formatTimestamp_shape_counterexample:
  "(0::rat) \<le> 67553994410557496
   \<and> binary64 67553994410557496 = 67553994410557496
   \<and> \<lfloor>(67553994410557496::rat) / 60\<rfloor> = 1125899906842624
   \<and> toString \<lfloor>(67553994410557496::rat) / 60\<rfloor> = ''1125899906842624''
   \<and> formatTimestamp 67553994410557496 = ''1125899906842625:56''
   \<and> binary64 10000000000000000000 = 10000000000000000000
   \<and> \<lfloor>(10000000000000000000::rat) / 60\<rfloor> = 166666666666666666
   \<and> formatTimestamp 10000000000000000000 = ''166666666666666660:40''
   \<and> binary64 60000000000000000000000 = 60000000000000000000000
   \<and> formatTimestamp 60000000000000000000000 = ''1e+21:00''"
proof -
  have a: "binary64 67553994410557496 = 67553994410557496"
    "\<lfloor>(67553994410557496::rat) / 60\<rfloor> = 1125899906842624"
    "formatTimestamp 67553994410557496 = ''1125899906842625:56''"
    "toString \<lfloor>(67553994410557496::rat) / 60\<rfloor> = ''1125899906842624''"
    by code_simp+
  have b: "binary64 10000000000000000000 = 10000000000000000000"
    "\<lfloor>(10000000000000000000::rat) / 60\<rfloor> = 166666666666666666"
    "formatTimestamp 10000000000000000000 = ''166666666666666660:40''"
    by code_simp+
  have c: "binary64 60000000000000000000000 = 60000000000000000000000"
    "formatTimestamp 60000000000000000000000 = ''1e+21:00''"
    by code_simp+
  show ?thesis using a b c by simp
qed

theorem formatTimestamp_shape_witness:
  "(0::rat) \<le> 25 / 2 \<and> binary64 (25 / 2) = 25 / 2 \<and> (25 / 2 :: rat) < 2 ^ 53
   \<and> formatTimestamp (25 / 2) = ''0:12''
   \<and> \<lfloor>(25 / 2 :: rat) / 60\<rfloor> = 0 \<and> \<lfloor>js_rem (25 / 2) 60\<rfloor> = 12"
proof -
  have h: "(0::rat) \<le> 25 / 2" by simp
  have b: "binary64 (25 / 2) = 25 / 2" by code_simp
  have l: "(25 / 2 :: rat) < 2 ^ 53" by simp
  have e: "\<lfloor>(25 / 2 :: rat) / 60\<rfloor> = 0" "\<lfloor>js_rem (25 / 2) 60\<rfloor> = 12" by code_simp+
  have d: "decimal 0 = ''0''" "digit 1 = CHR ''1''" "digit 2 = CHR ''2''" by code_simp+
  from formatTimestamp_shape[OF h] b l
  have "formatTimestamp (25 / 2)
          = decimal \<lfloor>(25 / 2 :: rat) / 60\<rfloor> @ '':''
            @ [digit (\<lfloor>js_rem (25 / 2) 60\<rfloor> div 10), digit (\<lfloor>js_rem (25 / 2) 60\<rfloor> mod 10)]"
    by blast
  then have "formatTimestamp (25 / 2) = ''0:12''"
    using e d by simp
  then show ?thesis using h b l e by simp
qed

text \<open>The examples of the claim: 12.5 seconds and 65 seconds.\<close>

lemma formatTimestamp_examples:
  "formatTimestamp (25 / 2) = ''0:12''" "formatTimestamp 65 = ''1:05''"
  by code_simp+


section \<open>Selecting and submitting a file\<close>

lemma split_not_Nil: "split sep s \<noteq> []"
  by (induction s) (auto split: list.splits)

lemma split_no_sep: "sep \<notin> set s \<Longrightarrow> split sep s = [s]"
  by (induction s) (auto split: list.splits)

lemma split_sep_tl: "sep \<in> set s \<Longrightarrow> tl (split sep s) \<noteq> []"
  using split_not_Nil[of sep]
  by (induction s) (auto split: list.splits)

lemma last_split:
  "last (split sep s) = rev (takeWhile (\<lambda>c. c \<noteq> sep) (rev s))"
proof (induction s)
  case Nil
  then show ?case by simp
next
  case (Cons c cs)
  show ?case
  proof (cases "sep \<in> set cs")
    case True
    then have "takeWhile (\<lambda>c. c \<noteq> sep) (rev cs @ [c]) = takeWhile (\<lambda>c. c \<noteq> sep) (rev cs)"
      by (simp add: takeWhile_append1)
    moreover have "last (split sep (c # cs)) = last (split sep cs)"
      using split_not_Nil[of sep cs] split_sep_tl[OF True]
      by (auto split: list.splits)
    ultimately show ?thesis using Cons by simp
  next
    case False
    then have "takeWhile (\<lambda>c. c \<noteq> sep) (rev cs @ [c]) = rev cs @ takeWhile (\<lambda>c. c \<noteq> sep) [c]"
      by (intro takeWhile_append2) auto
    then show ?thesis using False
      by (auto simp: split_no_sep split: list.splits)
  qed
qed

lemma pop_split:
  "pop (split CHR ''.'' s) = Some (rev (takeWhile (\<lambda>c. c \<noteq> CHR ''.'') (rev s)))"
  by (simp add: pop_def split_not_Nil last_split)

lemma format_test_eq:
  "format_test f
     = (toLowerCase (rev (takeWhile (\<lambda>c. c \<noteq> CHR ''.'') (rev (name f))))
          \<in> {''mp4'', ''mov'', ''webm''})"
  by (simp add: format_test_def pop_split includes_elem_def)

lemma handleFile_eq:
  "handleFile f h =
     (if \<not> format_test f
      then h\<lparr> error := Text ''Unsupported format. Please upload MP4, MOV, or WebM.'',
              state := Error \<rparr>
      else if MAX_SIZE_MB * 1024 * 1024 < size_bytes f
      then h\<lparr> error := Text (''File too large ('' @ formatFileSize (size_bytes f)
                               @ ''). Max is '' @ decimal (int MAX_SIZE_MB) @ '' MB.''),
              state := Error \<rparr>
      else h\<lparr> file := Some f, state := Selected, error := Text '''', result := None \<rparr>)"
  by (simp add: handleFile_def format_test_def Let_def)

text \<open>
  For a name with a dot the test of \<open>handleFile\<close> is the test of the extension; for a name
  without a dot it is a test of the whole name.
\<close>

lemma format_test_dotted:
  "CHR ''.'' \<in> set (name f) \<Longrightarrow> format_test f = accepted_extension f"
  by (simp add: format_test_eq accepted_extension_def extension_def)

lemma format_test_dotless:
  assumes "CHR ''.'' \<notin> set (name f)"
  shows "format_test f = (toLowerCase (name f) \<in> {''mp4'', ''mov'', ''webm''})"
    and "\<not> accepted_extension f"
proof -
  from assms have "takeWhile (\<lambda>c. c \<noteq> CHR ''.'') (rev (name f)) = rev (name f)"
    by (intro takeWhile_eq_all_conv[THEN iffD2]) auto
  then have "rev (takeWhile (\<lambda>c. c \<noteq> CHR ''.'') (rev (name f))) = name f"
    by (simp only: rev_rev_ident)
  then show "format_test f = (toLowerCase (name f) \<in> {''mp4'', ''mov'', ''webm''})"
    by (simp only: format_test_eq)
  show "\<not> accepted_extension f"
    using assms by (simp add: accepted_extension_def extension_def)
qed

lemma accepted_extension_format_test: "accepted_extension f \<Longrightarrow> format_test f"
  using format_test_dotted[of f] format_test_dotless(2)[of f] by blast

lemma page_invariant_initial: "page_invariant initial"
  by (simp add: page_invariant_def initial_def)

lemma page_invariant_handleFile: "page_invariant h \<Longrightarrow> page_invariant (handleFile f h)"
  by (simp add: handleFile_eq page_invariant_def upload_ok_def)

lemma page_invariant_fire: "page_invariant h \<Longrightarrow> page_invariant (fire e h)"
proof (cases e)
  case (Drop x)
  assume "page_invariant h"
  then have "page_invariant (h\<lparr>dragover := False\<rparr>)" by (simp add: page_invariant_def)
  then show ?thesis using Drop page_invariant_handleFile
    by (simp add: onDrop_def Let_def split: option.splits)
next
  case (FileInput x)
  assume "page_invariant h"
  then show ?thesis using FileInput page_invariant_handleFile
    by (simp add: onFileInput_def split: option.splits)
next
  case ClickAnalyze
  assume "page_invariant h"
  then show ?thesis using ClickAnalyze
    by (auto simp: analyze_def page_invariant_def upload_form_def split: option.splits)
next
  case TimerTick
  assume "page_invariant h"
  then show ?thesis using TimerTick
    by (simp add: tick_def page_invariant_def Math_min_def)
next
  case (FetchSettles out)
  assume "page_invariant h"
  then show ?thesis using FetchSettles
    by (simp add: settle_def page_invariant_def Let_def split: sum.splits)
qed (simp_all add: page_invariant_def onDragOver_def onDragLeave_def reset_def copyJson_def
      copyTimeout_def toggleJson_def)

lemma page_invariant_run: "page_invariant h \<Longrightarrow> run es h = Some h' \<Longrightarrow> page_invariant h'"
proof (induction es arbitrary: h)
  case Nil
  then show ?case by simp
next
  case (Cons e es)
  from Cons.prems(2) have en: "enabled h e" and r: "run es (fire e h) = Some h'"
    by (simp_all split: if_splits)
  from page_invariant_fire[OF Cons.prems(1)] have "page_invariant (fire e h)" .
  then show ?case using Cons.IH r by blast
qed

lemma decimal_500: "decimal 500 = ''500''"
  by code_simp

lemma sent_run:
  assumes "run es initial = Some h" "r \<in> set (sent h)"
  shows "\<exists>f. r = upload_form f \<and> upload_ok f"
  using page_invariant_run[OF page_invariant_initial assms(1)] assms(2)
  by (simp add: page_invariant_def)

text \<open>
  What \<open>handleFile\<close> and \<open>analyze\<close> do with a file, in terms of the test the code makes.
  A file that fails the test is rejected: the state becomes \<open>Error\<close> with the message
  \<^verbatim>\<open>Unsupported format\<close>, nothing else changes, and so no request is sent. A file with an
  extension fails the test exactly when the extension, lower-cased, is not \<^verbatim>\<open>mp4\<close>,
  \<^verbatim>\<open>mov\<close> or \<^verbatim>\<open>webm\<close>. A file that \<open>handleFile\<close> selects is submitted by \<open>analyze\<close>
  as one POST whose form has the single field \<^verbatim>\<open>file\<close>, and every request the page has
  sent, whatever the user does, is such a form with a file that passed the test.
\<close>

lemma handleFile_format_gate:
  "(\<not> format_test f \<longrightarrow>
      handleFile f h = h\<lparr> error := Text ''Unsupported format. Please upload MP4, MOV, or WebM.'',
                           state := Error \<rparr>
      \<and> state (handleFile f h) = Error \<and> sent (handleFile f h) = sent h)
   \<and> (extension (name f) = Some e \<longrightarrow>
        format_test f = (toLowerCase e \<in> {''mp4'', ''mov'', ''webm''}))
   \<and> (file (handleFile f h) = Some f \<and> state (handleFile f h) = Selected
        \<longrightarrow> sent (analyze (handleFile f h)) = sent h @ [upload_form f])
   \<and> (run es initial = Some h' \<longrightarrow>
        (\<forall>r \<in> set (sent h'). \<exists>g. r = upload_form g \<and> format_test g))"
proof (intro conjI impI ballI)
  fix r assume "run es initial = Some h'" "r \<in> set (sent h')"
  from sent_run[OF this] show "\<exists>g. r = upload_form g \<and> format_test g"
    by (auto simp: upload_ok_def)
next
  assume a: "file (handleFile f h) = Some f \<and> state (handleFile f h) = Selected"
  then have "sent (handleFile f h) = sent h"
    by (simp add: handleFile_eq split: if_splits)
  then show "sent (analyze (handleFile f h)) = sent h @ [upload_form f]"
    using a by (simp add: analyze_def upload_form_def)
next
  assume e: "extension (name f) = Some e"
  then have d: "CHR ''.'' \<in> set (name f)"
    by (simp add: extension_def split: if_splits)
  show "format_test f = (toLowerCase e \<in> {''mp4'', ''mov'', ''webm''})"
    using format_test_dotted[OF d] e by (simp add: accepted_extension_def)
qed (simp_all add: handleFile_eq)

lemma handleFile_format_gate_examples:
  "\<not> format_test \<lparr> name = ''notes.txt'', size_bytes = 2048 \<rparr>"
  "state (handleFile \<lparr> name = ''notes.txt'', size_bytes = 2048 \<rparr> initial) = Error"
  "accepted_extension \<lparr> name = ''Demo.run.MP4'', size_bytes = 1048576 \<rparr>"
  "run [FileInput (Some \<lparr> name = ''Demo.run.MP4'', size_bytes = 1048576 \<rparr>), ClickAnalyze] initial
     = Some (analyze (handleFile \<lparr> name = ''Demo.run.MP4'', size_bytes = 1048576 \<rparr> initial))"
  "sent (analyze (handleFile \<lparr> name = ''Demo.run.MP4'', size_bytes = 1048576 \<rparr> initial))
     = [upload_form \<lparr> name = ''Demo.run.MP4'', size_bytes = 1048576 \<rparr>]"
proof -
  let ?n = "\<lparr> name = ''notes.txt'', size_bytes = 2048 \<rparr>"
  let ?c = "\<lparr> name = ''Demo.run.MP4'', size_bytes = 1048576 \<rparr>"
  have "toLowerCase (rev (takeWhile (\<lambda>c. c \<noteq> CHR ''.'') (rev ''notes.txt''))) = ''txt''"
    by code_simp
  then show n: "\<not> format_test ?n" by (simp add: format_test_eq)
  then show "state (handleFile ?n initial) = Error" by (simp add: handleFile_eq)
  have "extension ''Demo.run.MP4'' = Some ''MP4''" "toLowerCase ''MP4'' = ''mp4''"
    by code_simp+
  then show c: "accepted_extension ?c" by (simp add: accepted_extension_def)
  have sz: "\<not> MAX_SIZE_MB * 1024 * 1024 < size_bytes ?c" by (simp add: MAX_SIZE_MB_def)
  have sel: "file (handleFile ?c initial) = Some ?c \<and> state (handleFile ?c initial) = Selected"
    using accepted_extension_format_test[OF c] sz by (simp add: handleFile_eq)
  have i: "state initial = Idle" "sent initial = []" by (simp_all add: initial_def)
  show "run [FileInput (Some ?c), ClickAnalyze] initial = Some (analyze (handleFile ?c initial))"
    using sel i by (simp add: onFileInput_def)
  from handleFile_format_gate[of ?c initial] sel i
  show "sent (analyze (handleFile ?c initial)) = [upload_form ?c]"
    by simp
qed

text \<open>
  Claim C1. Only files whose extension is \<^verbatim>\<open>mp4\<close>, \<^verbatim>\<open>mov\<close> or \<^verbatim>\<open>webm\<close> should be
  accepted. \<open>handleFile\<close> takes the last piece of the name split at its dots, which for a
  name without a dot is the whole name. The file named \<^verbatim>\<open>mp4\<close> has no extension, yet it
  passes the test: \<open>handleFile\<close> stores it, the state is \<open>Selected\<close> and not \<open>Error\<close>, and
  \<open>analyze\<close> submits it.
\<close>

theorem handleFile_dotless_name:
  "extension (name \<lparr> name = ''mp4'', size_bytes = 1000 \<rparr>) = None
   \<and> \<not> accepted_extension \<lparr> name = ''mp4'', size_bytes = 1000 \<rparr>
   \<and> handleFile \<lparr> name = ''mp4'', size_bytes = 1000 \<rparr> initial
       = initial\<lparr> file := Some \<lparr> name = ''mp4'', size_bytes = 1000 \<rparr>, state := Selected,
                   error := Text [], result := None \<rparr>
   \<and> state (handleFile \<lparr> name = ''mp4'', size_bytes = 1000 \<rparr> initial) = Selected
   \<and> run [Drop (Some \<lparr> name = ''mp4'', size_bytes = 1000 \<rparr>), ClickAnalyze] initial
       = Some (analyze (handleFile \<lparr> name = ''mp4'', size_bytes = 1000 \<rparr> initial))
   \<and> sent (analyze (handleFile \<lparr> name = ''mp4'', size_bytes = 1000 \<rparr> initial))
       = [upload_form \<lparr> name = ''mp4'', size_bytes = 1000 \<rparr>]"
proof -
  let ?f = "\<lparr> name = ''mp4'', size_bytes = 1000 \<rparr>"
  have d: "CHR ''.'' \<notin> set (name ?f)" by simp
  then have x: "extension (name ?f) = None" by (simp add: extension_def)
  have a: "\<not> accepted_extension ?f" using x by (simp add: accepted_extension_def)
  have "toLowerCase ''mp4'' = ''mp4''" by code_simp
  then have t: "format_test ?f" using format_test_dotless(1)[OF d] by simp
  have sz: "\<not> MAX_SIZE_MB * 1024 * 1024 < size_bytes ?f" by (simp add: MAX_SIZE_MB_def)
  have h: "handleFile ?f initial
             = initial\<lparr> file := Some ?f, state := Selected, error := Text [], result := None \<rparr>"
    using t sz by (simp add: handleFile_eq)
  have i: "state initial = Idle" "sent initial = []" by (simp_all add: initial_def)
  have d0: "initial\<lparr> dragover := False \<rparr> = initial" by (simp add: initial_def)
  have s: "state (handleFile ?f initial) = Selected" "file (handleFile ?f initial) = Some ?f"
    "sent (handleFile ?f initial) = []"
    using h i by simp_all
  have r: "run [Drop (Some ?f), ClickAnalyze] initial = Some (analyze (handleFile ?f initial))"
    using s i by (simp add: onDrop_def Let_def d0)
  have q: "sent (analyze (handleFile ?f initial)) = [upload_form ?f]"
    using s by (simp add: analyze_def upload_form_def)
  show ?thesis using x a h s(1) r q by blast
qed

section \<open>The size limit\<close>

text \<open>
  Claim C8. \<open>handleFile\<close> tests the extension first and the size second. A file that
  passes the first test, as every file with an accepted extension does, and has more than
  \<open>500 * 1024 * 1024\<close> bytes gets the error \<^verbatim>\<open>File too large (<size>). Max is 500 MB.\<close>;
  a file above the limit that fails the first test, as every file with another extension
  does, gets the error \<^verbatim>\<open>Unsupported format\<close>; every file above the limit puts the page
  in state \<open>Error\<close> and is not stored; and no request the page ever sends carries a file
  above the limit.
\<close>

theorem handleFile_size_gate:
  "(format_test f \<and> 500 * 1024 * 1024 < size_bytes f \<longrightarrow>
      handleFile f h = h\<lparr> error := Text (''File too large ('' @ formatFileSize (size_bytes f)
                                           @ ''). Max is 500 MB.''),
                           state := Error \<rparr>)
   \<and> (accepted_extension f \<longrightarrow> format_test f)
   \<and> (\<not> format_test f \<and> 500 * 1024 * 1024 < size_bytes f \<longrightarrow>
        handleFile f h
          = h\<lparr> error := Text ''Unsupported format. Please upload MP4, MOV, or WebM.'',
                state := Error \<rparr>)
   \<and> (extension (name f) = Some e \<and> toLowerCase e \<notin> {''mp4'', ''mov'', ''webm''} \<longrightarrow>
        \<not> format_test f)
   \<and> (500 * 1024 * 1024 < size_bytes f \<longrightarrow>
        state (handleFile f h) = Error \<and> file (handleFile f h) = file h
        \<and> sent (handleFile f h) = sent h)
   \<and> (run es initial = Some h' \<longrightarrow>
        (\<forall>r \<in> set (sent h'). \<exists>g. r = upload_form g \<and> size_bytes g \<le> 500 * 1024 * 1024))"
proof (intro conjI impI ballI)
  fix r assume "run es initial = Some h'" "r \<in> set (sent h')"
  from sent_run[OF this]
  show "\<exists>g. r = upload_form g \<and> size_bytes g \<le> 500 * 1024 * 1024"
    by (auto simp: upload_ok_def MAX_SIZE_MB_def)
next
  assume "accepted_extension f"
  then show "format_test f" by (rule accepted_extension_format_test)
next
  assume e: "extension (name f) = Some e \<and> toLowerCase e \<notin> {''mp4'', ''mov'', ''webm''}"
  then have d: "CHR ''.'' \<in> set (name f)"
    by (simp add: extension_def split: if_splits)
  show "\<not> format_test f"
    using format_test_dotted[OF d] e by (simp add: accepted_extension_def)
qed (simp_all add: handleFile_eq MAX_SIZE_MB_def decimal_500)

text \<open>
  A file above the limit whose extension is not accepted gets the message of the extension
  test, not \<^verbatim>\<open>File too large\<close>.
\<close>

theorem handleFile_size_gate_counterexample:
  "500 * 1024 * 1024 < size_bytes \<lparr> name = ''capture.avi'', size_bytes = 524288001 \<rparr>
   \<and> error (handleFile \<lparr> name = ''capture.avi'', size_bytes = 524288001 \<rparr> initial)
       = Text ''Unsupported format. Please upload MP4, MOV, or WebM.''"
proof -
  have "toLowerCase (rev (takeWhile (\<lambda>c. c \<noteq> CHR ''.'') (rev ''capture.avi''))) = ''avi''"
    by code_simp
  then have "\<not> format_test \<lparr> name = ''capture.avi'', size_bytes = 524288001 \<rparr>"
    by (simp add: format_test_eq)
  then show ?thesis by (simp add: handleFile_eq)
qed

lemma formatFileSize_example: "formatFileSize 524288001 = ''500.0 MB''"
proof -
  have "toFixed 1 (js_div 524288001 (1024 * 1024)) = ''500.0''" by code_simp
  then show ?thesis by (simp add: formatFileSize_def)
qed

theorem handleFile_size_gate_witness:
  "accepted_extension \<lparr> name = ''capture.mov'', size_bytes = 524288001 \<rparr>
   \<and> format_test \<lparr> name = ''capture.mov'', size_bytes = 524288001 \<rparr>
   \<and> 500 * 1024 * 1024 < size_bytes \<lparr> name = ''capture.mov'', size_bytes = 524288001 \<rparr>
   \<and> state (handleFile \<lparr> name = ''capture.mov'', size_bytes = 524288001 \<rparr> initial) = Error
   \<and> error (handleFile \<lparr> name = ''capture.mov'', size_bytes = 524288001 \<rparr> initial)
       = Text ''File too large (500.0 MB). Max is 500 MB.''
   \<and> run [Drop (Some \<lparr> name = ''capture.mov'', size_bytes = 524288001 \<rparr>), ClickTryAgain] initial
       = Some (reset (handleFile \<lparr> name = ''capture.mov'', size_bytes = 524288001 \<rparr> initial))
   \<and> sent (reset (handleFile \<lparr> name = ''capture.mov'', size_bytes = 524288001 \<rparr> initial)) = []"
proof -
  let ?c = "\<lparr> name = ''capture.mov'', size_bytes = 524288001 \<rparr>"
  let ?es = "[Drop (Some ?c), ClickTryAgain]"
  let ?h = "reset (handleFile ?c initial)"
  have "extension ''capture.mov'' = Some ''mov''" "toLowerCase ''mov'' = ''mov''"
    by code_simp+
  then have c: "accepted_extension ?c" by (simp add: accepted_extension_def)
  have sz: "500 * 1024 * 1024 < size_bytes ?c" by simp
  note fs = formatFileSize_example
  have i: "state initial = Idle" "sent initial = []" by (simp_all add: initial_def)
  note g = handleFile_size_gate[of ?c initial _ ?es ?h]
  from g c have t: "format_test ?c" by blast
  from g have e: "handleFile ?c initial
      = initial\<lparr> error := Text ''File too large (500.0 MB). Max is 500 MB.'', state := Error \<rparr>"
    using t sz fs by simp
  have d: "initial\<lparr> dragover := False \<rparr> = initial" by (simp add: initial_def)
  have r: "run ?es initial = Some ?h"
    using e i by (simp add: onDrop_def Let_def d)
  have s: "sent ?h = []" using e i by (simp add: reset_def)
  show ?thesis using c t sz e r s by simp
qed

section \<open>The progress steps\<close>

lemma length_PIPELINE_STEPS: "length PIPELINE_STEPS = 5"
  by (simp add: PIPELINE_STEPS_def)

lemma tick_funpow: "activeStep h \<le> 4 \<Longrightarrow> activeStep ((tick ^^ n) h) = min (activeStep h + n) 4"
  by (induction n) (auto simp: tick_def Math_min_def length_PIPELINE_STEPS)

lemma run_ticks: "stepInterval h \<Longrightarrow> run (replicate k TimerTick) h = Some ((tick ^^ k) h)"
proof (induction k arbitrary: h)
  case 0
  then show ?case by simp
next
  case (Suc k)
  have "stepInterval (tick h)" using Suc.prems by (simp add: tick_def)
  from Suc.IH[OF this] show ?case using Suc.prems by (simp add: funpow_swap1)
qed

text \<open>
  Claim C9. \<open>analyze\<close> sets \<open>activeStep\<close> to 0; every tick of the timer replaces it by
  \<^verbatim>\<open>Math.min(prev + 1, PIPELINE_STEPS.length - 1)\<close>, where the bound is 4; after \<open>n\<close>
  ticks it is \<open>min n 4\<close>, however long the request takes; and in every state the page can
  reach \<open>activeStep\<close> is at most 4.
\<close>

theorem activeStep_range:
  "(file h = Some f \<longrightarrow>
      activeStep (analyze h) = 0 \<and> activeStep ((tick ^^ n) (analyze h)) = min n 4)
   \<and> activeStep (tick h) = min (activeStep h + 1) (length PIPELINE_STEPS - 1)
   \<and> length PIPELINE_STEPS - 1 = 4
   \<and> (run es initial = Some h' \<longrightarrow> activeStep h' \<le> 4)"
proof (intro conjI impI)
  assume "file h = Some f"
  then show a: "activeStep (analyze h) = 0" by (simp add: analyze_def)
  show "activeStep ((tick ^^ n) (analyze h)) = min n 4"
    by (simp add: tick_funpow a)
next
  show "activeStep (tick h) = min (activeStep h + 1) (length PIPELINE_STEPS - 1)"
    by (simp add: tick_def Math_min_def)
  show "length PIPELINE_STEPS - 1 = 4" by (simp add: PIPELINE_STEPS_def)
next
  assume "run es initial = Some h'"
  from page_invariant_run[OF page_invariant_initial this]
  show "activeStep h' \<le> 4" by (simp add: page_invariant_def PIPELINE_STEPS_def)
qed

theorem activeStep_range_witness:
  "run (FileInput (Some \<lparr> name = ''demo.webm'', size_bytes = 4096 \<rparr>) # ClickAnalyze
          # replicate 7 TimerTick) initial
     = Some ((tick ^^ 7) (analyze (handleFile \<lparr> name = ''demo.webm'', size_bytes = 4096 \<rparr> initial)))
   \<and> activeStep ((tick ^^ 7) (analyze (handleFile \<lparr> name = ''demo.webm'', size_bytes = 4096 \<rparr> initial))) = 4
   \<and> activeStep (analyze (handleFile \<lparr> name = ''demo.webm'', size_bytes = 4096 \<rparr> initial)) = 0"
proof -
  let ?c = "\<lparr> name = ''demo.webm'', size_bytes = 4096 \<rparr>"
  let ?a = "analyze (handleFile ?c initial)"
  have "toLowerCase (rev (takeWhile (\<lambda>c. c \<noteq> CHR ''.'') (rev ''demo.webm''))) = ''webm''"
    by code_simp
  then have c: "format_test ?c" by (simp add: format_test_eq)
  have i: "state initial = Idle" by (simp add: initial_def)
  have sel: "file (handleFile ?c initial) = Some ?c" "state (handleFile ?c initial) = Selected"
    using c by (simp_all add: handleFile_eq MAX_SIZE_MB_def)
  have armed: "stepInterval ?a" using sel by (simp add: analyze_def)
  have r: "run (FileInput (Some ?c) # ClickAnalyze # replicate 7 TimerTick) initial
             = Some ((tick ^^ 7) ?a)"
    using i sel run_ticks[OF armed, of 7] by (simp add: onFileInput_def)
  from activeStep_range[of "handleFile ?c initial" ?c 7
         "FileInput (Some ?c) # ClickAnalyze # replicate 7 TimerTick" "(tick ^^ 7) ?a"]
  show ?thesis using sel r by simp
qed


section \<open>Responses\<close>

lemma settle_non_ok:
  assumes "\<not> ok res"
  shows "settle (Responded res) h
           = h\<lparr> stepInterval := False,
                 error := (case error_of_response res of JsError m \<Rightarrow> m
                           | NotAnError \<Rightarrow> Text ''Something went wrong''),
                 state := Error \<rparr>"
  using assms by (simp add: settle_def try_block_def Let_def)

lemma settle_ok:
  assumes "ok res" "body res = Some data"
  shows "settle (Responded res) h
           = h\<lparr> stepInterval := False, result := Some data, state := Done \<rparr>"
  using assms by (simp add: settle_def try_block_def Let_def)

text \<open>
  Claim C2. A response whose status is not in 200..299 always puts the page in state
  \<open>Error\<close>: \<open>result\<close> is left as it was, the state is not \<open>Done\<close>, and what is shown is
  the error box. The message is the \<^verbatim>\<open>detail\<close> member of the JSON body when that member
  is truthy (shown as it is when it is a non-empty string); the status text when the body
  does not parse as JSON and the status text is not empty; and \<^verbatim>\<open>HTTP <status>\<close> when
  the body does not parse and the status text is empty, or when the body is a JSON value
  other than \<^verbatim>\<open>null\<close> whose \<^verbatim>\<open>detail\<close> is missing or falsy.
\<close>

theorem non_ok_response:
  assumes "\<not> ok res"
  shows "state (settle (Responded res) h) = Error
       \<and> result (settle (Responded res) h) = result h
       \<and> render (settle (Responded res) h) = ErrorBox (error (settle (Responded res) h))
       \<and> (body res = Some (JObj kvs) \<and> member kvs ''detail'' = Some (JStr d) \<and> d \<noteq> []
            \<longrightarrow> error (settle (Responded res) h) = Text d)
       \<and> (body res = Some (JObj kvs) \<and> member kvs ''detail'' = Some v \<and> truthy v
            \<longrightarrow> error (settle (Responded res) h) = String_of v)
       \<and> (body res = None \<and> statusText res \<noteq> []
            \<longrightarrow> error (settle (Responded res) h) = Text (statusText res))
       \<and> (body res = None \<and> statusText res = []
            \<longrightarrow> error (settle (Responded res) h) = Text (''HTTP '' @ decimal (int (status res))))
       \<and> (body res = Some j \<and> read_detail j = Inr None
            \<longrightarrow> error (settle (Responded res) h) = Text (''HTTP '' @ decimal (int (status res))))
       \<and> (body res = Some j \<and> read_detail j = Inr (Some v) \<and> \<not> truthy v
            \<longrightarrow> error (settle (Responded res) h) = Text (''HTTP '' @ decimal (int (status res))))"
proof -
  let ?h = "settle (Responded res) h"
  note s = settle_non_ok[OF assms, of h]
  have 1: "state ?h = Error" "result ?h = result h" by (simp_all add: s)
  have 2: "render ?h = ErrorBox (error ?h)" using 1 by (simp add: render_def)
  have 3: "body res = Some (JObj kvs) \<and> member kvs ''detail'' = Some v \<and> truthy v
            \<longrightarrow> error ?h = String_of v" for v
    by (simp add: s error_of_response_def read_detail_def)
  have 4: "body res = Some (JObj kvs) \<and> member kvs ''detail'' = Some (JStr d) \<and> d \<noteq> []
            \<longrightarrow> error ?h = Text d"
    using 3[of "JStr d"] by (simp add: String_of_def)
  have 5: "body res = None \<and> statusText res \<noteq> [] \<longrightarrow> error ?h = Text (statusText res)"
    by (simp add: s error_of_response_def read_detail_def member_def String_of_def)
  have 6: "body res = None \<and> statusText res = []
            \<longrightarrow> error ?h = Text (''HTTP '' @ decimal (int (status res)))"
    by (simp add: s error_of_response_def read_detail_def member_def)
  have 7: "body res = Some j \<and> read_detail j = Inr None
            \<longrightarrow> error ?h = Text (''HTTP '' @ decimal (int (status res)))"
    by (simp add: s error_of_response_def)
  have 8: "body res = Some j \<and> read_detail j = Inr (Some v) \<and> \<not> truthy v
            \<longrightarrow> error ?h = Text (''HTTP '' @ decimal (int (status res)))" for v
    by (simp add: s error_of_response_def)
  show ?thesis using 1 2 3 4 5 6 7 8 by blast
qed

text \<open>
  Two responses for which the message is neither a \<^verbatim>\<open>detail\<close> member nor the status
  text. The first has a JSON body without \<^verbatim>\<open>detail\<close>. The second has a body that is not
  JSON and an empty status text, as every HTTP/2 response has: the page falls back to
  \<^verbatim>\<open>HTTP 502\<close>, not to the status text.
\<close>

theorem non_ok_response_counterexample:
  "\<not> ok \<lparr> status = 502, statusText = ''Bad Gateway'',
            body = Some (JObj [(''error'', JStr ''upstream unavailable'')]) \<rparr>
   \<and> member [(''error'', JStr ''upstream unavailable'')] ''detail'' = None
   \<and> error (settle (Responded \<lparr> status = 502, statusText = ''Bad Gateway'',
                body = Some (JObj [(''error'', JStr ''upstream unavailable'')]) \<rparr>) initial)
       = Text ''HTTP 502''
   \<and> \<not> ok \<lparr> status = 502, statusText = [], body = None \<rparr>
   \<and> error (settle (Responded \<lparr> status = 502, statusText = [], body = None \<rparr>) initial)
       = Text ''HTTP 502''
   \<and> error (settle (Responded \<lparr> status = 502, statusText = [], body = None \<rparr>) initial)
       \<noteq> Text (statusText \<lparr> status = 502, statusText = [], body = None \<rparr>)"
proof -
  have d: "decimal 502 = ''502''" by code_simp
  show ?thesis
    by (simp add: settle_non_ok ok_def error_of_response_def read_detail_def member_def d)
qed

theorem non_ok_response_witness:
  "\<not> ok \<lparr> status = 400, statusText = ''Bad Request'',
            body = Some (JObj [(''detail'', JStr ''Video is longer than 5 minutes'')]) \<rparr>
   \<and> state (settle (Responded \<lparr> status = 400, statusText = ''Bad Request'',
                body = Some (JObj [(''detail'', JStr ''Video is longer than 5 minutes'')]) \<rparr>) initial)
       = Error
   \<and> render (settle (Responded \<lparr> status = 400, statusText = ''Bad Request'',
                body = Some (JObj [(''detail'', JStr ''Video is longer than 5 minutes'')]) \<rparr>) initial)
       = ErrorBox (Text ''Video is longer than 5 minutes'')
   \<and> \<not> ok \<lparr> status = 504, statusText = ''Gateway Timeout'', body = None \<rparr>
   \<and> render (settle (Responded \<lparr> status = 504, statusText = ''Gateway Timeout'', body = None \<rparr>) initial)
       = ErrorBox (Text ''Gateway Timeout'')"
proof -
  let ?kvs = "[(''detail'', JStr ''Video is longer than 5 minutes'')]"
  let ?a = "\<lparr> status = 400, statusText = ''Bad Request'', body = Some (JObj ?kvs) \<rparr>"
  let ?b = "\<lparr> status = 504, statusText = ''Gateway Timeout'', body = None \<rparr>"
  have a: "\<not> ok ?a" and b: "\<not> ok ?b" by (simp_all add: ok_def)
  have m: "member ?kvs ''detail'' = Some (JStr ''Video is longer than 5 minutes'')"
    by (simp add: member_def)
  from non_ok_response[OF a, of initial ?kvs "''Video is longer than 5 minutes''" JNull JNull]
  have 1: "state (settle (Responded ?a) initial) = Error
         \<and> render (settle (Responded ?a) initial) = ErrorBox (Text ''Video is longer than 5 minutes'')"
    using m by simp
  from non_ok_response[OF b, of initial "[]" "[]" JNull JNull]
  have 2: "render (settle (Responded ?b) initial) = ErrorBox (Text ''Gateway Timeout'')"
    by simp
  show ?thesis using a b 1 2 by simp
qed


section \<open>Results\<close>

lemma as_FailureEvent_json: "as_FailureEvent (FailureEvent_json f) = Some f"
  by (simp add: as_FailureEvent_def FailureEvent_json_def member_def)

lemma those_map_Some: "(\<And>x. g x = Some (k x)) \<Longrightarrow> those (map g xs) = Some (map k xs)"
  by (induction xs) simp_all

lemma as_AnalyzeResponse_json: "as_AnalyzeResponse (AnalyzeResponse_json r) = Some r"
proof -
  have "those (map as_FailureEvent (map FailureEvent_json (failures r))) = Some (failures r)"
    using those_map_Some[of "as_FailureEvent \<circ> FailureEvent_json" id "failures r"]
    by (simp add: as_FailureEvent_json)
  then show ?thesis
    by (simp add: as_AnalyzeResponse_def AnalyzeResponse_json_def member_def)
qed

lemma render_done:
  assumes "ok res" "body res = Some j" "as_AnalyzeResponse j = Some r"
  shows "render (settle (Responded res) h) = Results (render_results h j r)"
proof -
  have t: "truthy j"
    using assms(3) by (cases j) (simp_all add: as_AnalyzeResponse_def)
  have "render_results (h\<lparr> stepInterval := False, result := Some j, state := Done \<rparr>)
          = render_results h"
    by (intro ext) (simp add: render_results_def)
  then show ?thesis
    using t assms(3) by (simp add: settle_ok[OF assms(1,2)] render_def)
qed

text \<open>
  Claim C6. A response with status 200 whose body is the object \<^verbatim>\<open>{"failures": []}\<close> is a
  success: the page goes to state \<open>Done\<close>, keeps the body as \<open>result\<close>, and shows the
  result panel with the count \<^verbatim>\<open>0 failures detected\<close>, the notice that no failures were
  detected, and no card.
\<close>

theorem empty_failures_is_success:
  "state (settle (Responded \<lparr> status = 200, statusText = t,
                               body = Some (JObj [(''failures'', JArr [])]) \<rparr>) h) = Done
   \<and> result (settle (Responded \<lparr> status = 200, statusText = t,
                               body = Some (JObj [(''failures'', JArr [])]) \<rparr>) h)
       = Some (JObj [(''failures'', JArr [])])
   \<and> render (settle (Responded \<lparr> status = 200, statusText = t,
                               body = Some (JObj [(''failures'', JArr [])]) \<rparr>) h)
       = Results \<lparr> count_text = ''0 failures detected'', copy_done = copied h,
                   no_failures = True, cards = [],
                   raw_json = (if showJson h then Some (JObj [(''failures'', JArr [])])
                               else None) \<rparr>"
proof -
  let ?res = "\<lparr> status = 200, statusText = t, body = Some (JObj [(''failures'', JArr [])]) \<rparr>"
  have j: "JObj [(''failures'', JArr [])] = AnalyzeResponse_json \<lparr> failures = [] \<rparr>"
    by (simp add: AnalyzeResponse_json_def)
  have o: "ok ?res" by (simp add: ok_def)
  have b: "body ?res = Some (AnalyzeResponse_json \<lparr> failures = [] \<rparr>)" by (simp add: j)
  have d: "decimal 0 = ''0''" by code_simp
  have "render (settle (Responded ?res) h)
          = Results (render_results h (AnalyzeResponse_json \<lparr> failures = [] \<rparr>) \<lparr> failures = [] \<rparr>)"
    by (rule render_done[OF o b as_AnalyzeResponse_json])
  then show ?thesis
    using o by (simp add: settle_ok[OF o] render_results_def d j[symmetric])
qed


theorem empty_failures_is_success_witness:
  "run [FileInput (Some \<lparr> name = ''silent.mp4'', size_bytes = 52000 \<rparr>), ClickAnalyze, TimerTick,
        FetchSettles (Responded \<lparr> status = 200, statusText = ''OK'',
                                   body = Some (JObj [(''failures'', JArr [])]) \<rparr>)] initial
     = Some (settle (Responded \<lparr> status = 200, statusText = ''OK'',
                                   body = Some (JObj [(''failures'', JArr [])]) \<rparr>)
               (tick (analyze (handleFile \<lparr> name = ''silent.mp4'', size_bytes = 52000 \<rparr> initial))))
   \<and> render (settle (Responded \<lparr> status = 200, statusText = ''OK'',
                                   body = Some (JObj [(''failures'', JArr [])]) \<rparr>)
               (tick (analyze (handleFile \<lparr> name = ''silent.mp4'', size_bytes = 52000 \<rparr> initial))))
       = Results \<lparr> count_text = ''0 failures detected'', copy_done = False,
                   no_failures = True, cards = [], raw_json = None \<rparr>"
proof -
  let ?c = "\<lparr> name = ''silent.mp4'', size_bytes = 52000 \<rparr>"
  let ?res = "\<lparr> status = 200, statusText = ''OK'', body = Some (JObj [(''failures'', JArr [])]) \<rparr>"
  let ?h = "tick (analyze (handleFile ?c initial))"
  have "toLowerCase (rev (takeWhile (\<lambda>c. c \<noteq> CHR ''.'') (rev ''silent.mp4''))) = ''mp4''"
    by code_simp
  then have c: "format_test ?c" by (simp add: format_test_eq)
  have hf: "handleFile ?c initial
              = initial\<lparr> file := Some ?c, state := Selected, error := Text [], result := None \<rparr>"
    using c by (simp add: handleFile_eq MAX_SIZE_MB_def)
  have i: "state initial = Idle" "copied initial = False" "showJson initial = False"
    by (simp_all add: initial_def)
  have flags: "stepInterval (analyze (handleFile ?c initial))" "stepInterval ?h"
      "copied ?h = False" "showJson ?h = False"
    using i by (simp_all add: hf analyze_def tick_def)
  have r: "run [FileInput (Some ?c), ClickAnalyze, TimerTick, FetchSettles (Responded ?res)] initial
             = Some (settle (Responded ?res) ?h)"
    using i flags by (simp add: onFileInput_def hf)
  from empty_failures_is_success[of "''OK''" ?h]
  show ?thesis using r flags by simp
qed

text \<open>
  Claim C7. Take a response with a status in 200..299 whose body reads as a value \<open>r\<close> of
  type \<^verbatim>\<open>AnalyzeResponse\<close>; the JSON object of every such value does. The page shows
  one card per failure event, in order, and the card shows the six fields of the event:
  \<^verbatim>\<open>timestamp_seconds\<close> through \<open>formatTimestamp\<close>, the title, the expected and the
  actual behaviour, the evidence, and the confidence as \<^verbatim>\<open>Math.round(confidence * 100)\<close>
  followed by \<^verbatim>\<open>% confidence\<close>.
\<close>

theorem success_cards:
  assumes "ok res" "body res = Some j" "as_AnalyzeResponse j = Some r"
  shows "as_AnalyzeResponse (AnalyzeResponse_json r) = Some r
       \<and> (\<exists>v. render (settle (Responded res) h) = Results v
           \<and> length (cards v) = length (failures r)
           \<and> (\<forall>i < length (failures r).
                 timestamp_text (cards v ! i) = formatTimestamp (timestamp_seconds (failures r ! i))
               \<and> title_text (cards v ! i) = title (failures r ! i)
               \<and> expected_text (cards v ! i) = expected (failures r ! i)
               \<and> actual_text (cards v ! i) = actual (failures r ! i)
               \<and> evidence_text (cards v ! i) = evidence (failures r ! i)
               \<and> confidence_text (cards v ! i)
                   = toString (Math_round (js_mul (confidence (failures r ! i)) 100))
                     @ ''% confidence''))"
proof -
  let ?v = "render_results h j r"
  have "render (settle (Responded res) h) = Results ?v"
    by (rule render_done[OF assms])
  moreover have "cards ?v = map failure_card (failures r)"
    by (simp add: render_results_def)
  ultimately have "\<exists>v. render (settle (Responded res) h) = Results v
           \<and> length (cards v) = length (failures r)
           \<and> (\<forall>i < length (failures r).
                 timestamp_text (cards v ! i) = formatTimestamp (timestamp_seconds (failures r ! i))
               \<and> title_text (cards v ! i) = title (failures r ! i)
               \<and> expected_text (cards v ! i) = expected (failures r ! i)
               \<and> actual_text (cards v ! i) = actual (failures r ! i)
               \<and> evidence_text (cards v ! i) = evidence (failures r ! i)
               \<and> confidence_text (cards v ! i)
                   = toString (Math_round (js_mul (confidence (failures r ! i)) 100))
                     @ ''% confidence'')"
    by (intro exI[of _ ?v]) (simp add: failure_card_def)
  then show ?thesis using as_AnalyzeResponse_json by blast
qed

theorem success_cards_witness:
  "ok \<lparr> status = 200, statusText = ''OK'',
         body = Some (AnalyzeResponse_json \<lparr> failures =
           [\<lparr> timestamp_seconds = 25 / 2, title = ''Button click does nothing'',
              expected = ''Clicking submit should save the form'',
              actual = ''Nothing happens after clicking submit'',
              evidence = ''I click submit and nothing happens'',
              confidence = binary64 (85 / 100) \<rparr>] \<rparr>) \<rparr>
   \<and> render (settle (Responded \<lparr> status = 200, statusText = ''OK'',
         body = Some (AnalyzeResponse_json \<lparr> failures =
           [\<lparr> timestamp_seconds = 25 / 2, title = ''Button click does nothing'',
              expected = ''Clicking submit should save the form'',
              actual = ''Nothing happens after clicking submit'',
              evidence = ''I click submit and nothing happens'',
              confidence = binary64 (85 / 100) \<rparr>] \<rparr>) \<rparr>) initial)
     = Results \<lparr> count_text = ''1 failure detected'', copy_done = False, no_failures = False,
         cards = [\<lparr> timestamp_text = ''0:12'', confidence_class = ''confidence-high'',
                    confidence_text = ''85% confidence'',
                    title_text = ''Button click does nothing'',
                    expected_text = ''Clicking submit should save the form'',
                    actual_text = ''Nothing happens after clicking submit'',
                    evidence_text = ''I click submit and nothing happens'' \<rparr>],
         raw_json = None \<rparr>"
proof -
  let ?f = "\<lparr> timestamp_seconds = 25 / 2, title = ''Button click does nothing'',
              expected = ''Clicking submit should save the form'',
              actual = ''Nothing happens after clicking submit'',
              evidence = ''I click submit and nothing happens'',
              confidence = binary64 (85 / 100) \<rparr>"
  let ?r = "\<lparr> failures = [?f] \<rparr>"
  let ?res = "\<lparr> status = 200, statusText = ''OK'', body = Some (AnalyzeResponse_json ?r) \<rparr>"
  have o: "ok ?res" by (simp add: ok_def)
  have b: "body ?res = Some (AnalyzeResponse_json ?r)" by simp
  have t: "formatTimestamp (25 / 2) = ''0:12''" by (rule formatTimestamp_examples)
  have p: "toString (Math_round (js_mul (binary64 (85 / 100)) 100)) = ''85''" by code_simp
  have k: "confidenceClass (binary64 (85 / 100)) = ''confidence-high''" by code_simp
  have d: "decimal 1 = ''1''" by code_simp
  from success_cards[OF o b as_AnalyzeResponse_json, of initial]
  obtain v where v: "render (settle (Responded ?res) initial) = Results v"
    by blast
  have "render (settle (Responded ?res) initial)
          = Results (render_results initial (AnalyzeResponse_json ?r) ?r)"
    by (rule render_done[OF o b as_AnalyzeResponse_json])
  with v have "v = render_results initial (AnalyzeResponse_json ?r) ?r" by simp
  moreover have "copied initial = False" "showJson initial = False"
    by (simp_all add: initial_def)
  ultimately have "v = \<lparr> count_text = ''1 failure detected'', copy_done = False,
         no_failures = False,
         cards = [\<lparr> timestamp_text = ''0:12'', confidence_class = ''confidence-high'',
                    confidence_text = ''85% confidence'',
                    title_text = ''Button click does nothing'',
                    expected_text = ''Clicking submit should save the form'',
                    actual_text = ''Nothing happens after clicking submit'',
                    evidence_text = ''I click submit and nothing happens'' \<rparr>],
         raw_json = None \<rparr>"
    using t p k d by (simp add: render_results_def failure_card_def)
  with v o show ?thesis by simp
qed


section \<open>Extraction with one repair retry\<close>

lemma extract_window_calls:
  "length (fst (snd (extract_window backend w st))) \<in> {1, 2}"
  by (simp add: extract_window_def Let_def split: prod.splits sum.splits)

lemma extract_all_append:
  "extract_all backend (ws @ vs) st =
     (let (es, cs, st1) = extract_all backend ws st;
          (es', cs', st2) = extract_all backend vs st1
      in (es @ es', cs @ cs', st2))"
  by (induction ws arbitrary: st) (simp_all add: Let_def split: prod.splits)

text \<open>An empty transcript has no candidate and no window: the response has no failure and
  the backend is not called.\<close>

lemma empty_transcript:
  "analyze_transcript backend similar duration [] st = (\<lparr> failures = [] \<rparr>, [], st)"
  by (simp add: analyze_transcript_def detect_candidates_def merge_def final_order_def)

text \<open>
  Claim C3. Take a window whose initial extraction call and whose repair call both give an
  invalid reply (a failed call, a text that is not JSON, or JSON that fails validation).
  The Extraction Engine makes exactly two backend calls for it, the initial one and one
  repair, and yields no event; inside the run over all windows it adds exactly these two
  calls and no event; and the pipeline still answers with a success payload whenever audio
  extraction and transcription succeeded, so nothing is raised to the caller.
\<close>

theorem two_calls_then_skip:
  assumes "backend (Initial w) st = (r1, st1)" "check_reply r1 = Inl e1"
      and "backend (Repair w e1) st1 = (r2, st2)" "check_reply r2 = Inl e2"
  shows "extract_window backend w st = ([], [Initial w, Repair w e1], st2)
       \<and> (extract_all backend before st0 = (es0, cs0, st) \<and> extract_all backend after st2 = (es3, cs3, st3)
            \<longrightarrow> extract_all backend (before @ w # after) st0
                  = (es0 @ es3, cs0 @ [Initial w, Repair w e1] @ cs3, st3))
       \<and> (extract_audio upload = Inr audio \<and> transcribe audio = Inr ts
            \<longrightarrow> (\<exists>r. fst (run_pipeline extract_audio transcribe backend similar duration upload st)
                      = Inr r))"
proof -
  have w: "extract_window backend w st = ([], [Initial w, Repair w e1], st2)"
    using assms by (simp add: extract_window_def)
  have a: "extract_all backend before st0 = (es0, cs0, st) \<and> extract_all backend after st2 = (es3, cs3, st3)
            \<longrightarrow> extract_all backend (before @ w # after) st0
                  = (es0 @ es3, cs0 @ [Initial w, Repair w e1] @ cs3, st3)"
    by (simp add: extract_all_append w)
  have p: "extract_audio upload = Inr audio \<and> transcribe audio = Inr ts
            \<longrightarrow> (\<exists>r. fst (run_pipeline extract_audio transcribe backend similar duration upload st)
                      = Inr r)"
    by (simp add: run_pipeline_def Let_def split: prod.splits)
  show ?thesis using w a p by simp
qed

lemma detect_example:
  "detect_candidates
     [\<lparr> seg_start = 0, seg_end = 4, seg_text = ''I open the settings page'' \<rparr>,
      \<lparr> seg_start = 4, seg_end = 9, seg_text = ''and the Export button is broken'' \<rparr>] = [1]"
  by code_simp

lemma window_example:
  "build_window
     [\<lparr> seg_start = 0, seg_end = 4, seg_text = ''I open the settings page'' \<rparr>,
      \<lparr> seg_start = 4, seg_end = 9, seg_text = ''and the Export button is broken'' \<rparr>] (Suc 0)
   = \<lparr> segments =
         [\<lparr> seg_start = 0, seg_end = 4, seg_text = ''I open the settings page'' \<rparr>,
          \<lparr> seg_start = 4, seg_end = 9, seg_text = ''and the Export button is broken'' \<rparr>],
       center_index = 1 \<rparr>"
  by (simp add: build_window_def)

theorem two_calls_then_skip_witness:
  "run_pipeline (\<lambda>u. Inr u) (\<lambda>a. Inr
       [\<lparr> seg_start = 0, seg_end = 4, seg_text = ''I open the settings page'' \<rparr>,
        \<lparr> seg_start = 4, seg_end = 9, seg_text = ''and the Export button is broken'' \<rparr>])
     (\<lambda>p n. (NotJson, Suc n)) (\<lambda>s t. s = t) 300 () 0
   = (Inr \<lparr> failures = [] \<rparr>,
      [Initial \<lparr> segments =
         [\<lparr> seg_start = 0, seg_end = 4, seg_text = ''I open the settings page'' \<rparr>,
          \<lparr> seg_start = 4, seg_end = 9, seg_text = ''and the Export button is broken'' \<rparr>],
         center_index = 1 \<rparr>,
       Repair \<lparr> segments =
         [\<lparr> seg_start = 0, seg_end = 4, seg_text = ''I open the settings page'' \<rparr>,
          \<lparr> seg_start = 4, seg_end = 9, seg_text = ''and the Export button is broken'' \<rparr>],
         center_index = 1 \<rparr> ''the response is not JSON''],
      2)"
proof -
  let ?ts = "[\<lparr> seg_start = 0, seg_end = 4, seg_text = ''I open the settings page'' \<rparr>,
      \<lparr> seg_start = 4, seg_end = 9, seg_text = ''and the Export button is broken'' \<rparr>]"
  let ?w = "\<lparr> segments = ?ts, center_index = 1 \<rparr>"
  let ?b = "\<lambda>(p::prompt) n. (NotJson, Suc n)"
  let ?e = "''the response is not JSON''"
  have 1: "?b (Initial ?w) 0 = (NotJson, 1)" by simp
  have 2: "check_reply NotJson = Inl ?e" by (simp add: check_reply_def)
  have 3: "?b (Repair ?w ?e) 1 = (NotJson, 2)" by simp
  have 0: "extract_all ?b [] (0::nat) = ([], [], 0)" "extract_all ?b [] (2::nat) = ([], [], 2)"
    by simp_all
  note t = two_calls_then_skip[where backend = ?b and w = ?w and st = 0 and ?r1.0 = NotJson
      and ?st1.0 = 1 and ?e1.0 = ?e and ?r2.0 = NotJson and ?st2.0 = 2 and ?e2.0 = ?e
      and before = "[]" and ?st0.0 = 0 and ?es0.0 = "[]" and ?cs0.0 = "[]"
      and after = "[]" and ?es3.0 = "[]" and ?cs3.0 = "[]" and ?st3.0 = 2
      and extract_audio = "\<lambda>u::unit. Inr u" and upload = "()" and audio = "()"
      and transcribe = "\<lambda>a::unit. Inr ?ts" and ts = ?ts
      and similar = "\<lambda>s t. s = t" and duration = 300, OF 1 2 3 2]
  from t have "extract_all ?b ([] @ ?w # []) 0 = ([] @ [], [] @ [Initial ?w, Repair ?w ?e] @ [], 2)"
    using 0 by blast
  moreover have "map (build_window ?ts) (detect_candidates ?ts) = [?w]"
    by (simp add: detect_example window_example)
  ultimately have "extract_all ?b (map (build_window ?ts) (detect_candidates ?ts)) 0
                     = ([], [Initial ?w, Repair ?w ?e], 2)"
    by simp
  then show ?thesis
    by (simp add: run_pipeline_def analyze_transcript_def merge_def final_order_def)
qed


section \<open>Merging duplicates\<close>

lemma merge_Nil: "merge similar [] = []"
  by (simp add: merge_def)

lemma merge_snoc: "merge similar (cs @ [c]) = absorb similar c (merge similar cs)"
  by (simp add: merge_def)

lemma absorb_accept:
  assumes "\<forall>x \<in> set accepted. duplicate similar x c \<longrightarrow> confidence x < confidence c"
  shows "absorb similar c accepted = filter (\<lambda>x. \<not> duplicate similar x c) accepted @ [c]"
  using assms by (simp add: absorb_def list_all_iff)

lemma absorb_drop:
  assumes "\<exists>x \<in> set accepted. duplicate similar x c \<and> confidence c \<le> confidence x"
  shows "absorb similar c accepted = accepted"
proof -
  from assms obtain x where "x \<in> set accepted" "duplicate similar x c"
    "\<not> confidence x < confidence c"
    by (auto simp: not_less)
  then have "\<not> list_all (\<lambda>a. confidence a < confidence c)
                 (filter (\<lambda>a. duplicate similar a c) accepted)"
    by (auto simp: list_all_iff)
  then show ?thesis by (simp add: absorb_def)
qed

lemma absorb_cases:
  "absorb similar c accepted = filter (\<lambda>x. \<not> duplicate similar x c) accepted @ [c]
   \<and> (\<forall>x \<in> set accepted. duplicate similar x c \<longrightarrow> confidence x < confidence c)
   \<or> absorb similar c accepted = accepted
   \<and> (\<exists>x \<in> set accepted. duplicate similar x c \<and> confidence c \<le> confidence x)"
proof (cases "\<forall>x \<in> set accepted. duplicate similar x c \<longrightarrow> confidence x < confidence c")
  case True
  then show ?thesis using absorb_accept[OF True] by blast
next
  case False
  then have "\<exists>x \<in> set accepted. duplicate similar x c \<and> confidence c \<le> confidence x"
    by (auto simp: not_less)
  then show ?thesis using absorb_drop by blast
qed

lemma absorb_exactly_one:
  assumes "d \<in> set accepted" "duplicate similar d c" "c \<notin> set accepted"
  shows "(d \<in> set (absorb similar c accepted)) \<noteq> (c \<in> set (absorb similar c accepted))"
  using absorb_cases[of similar c accepted] assms by auto

lemma subseq_absorb: "subseq (absorb similar c accepted) (accepted @ [c])"
proof -
  have "subseq (filter (\<lambda>x. \<not> duplicate similar x c) accepted @ [c]) (accepted @ [c])"
    by (intro list_emb_append_mono subseq_filter_left) simp
  moreover have "subseq accepted (accepted @ [c])" by (auto intro: list_emb_prefix)
  ultimately show ?thesis by (simp add: absorb_def)
qed

lemma subseq_merge: "subseq (merge similar cs) cs"
proof (induction cs rule: rev_induct)
  case Nil
  then show ?case by (simp add: merge_def)
next
  case (snoc c cs)
  have "subseq (absorb similar c (merge similar cs)) (merge similar cs @ [c])"
    by (rule subseq_absorb)
  also have "subseq (merge similar cs @ [c]) (cs @ [c])"
    using snoc by (intro list_emb_append_mono) simp_all
  finally show ?case by (simp only: merge_snoc)
qed

lemma set_merge: "set (merge similar cs) \<subseteq> set cs"
  using subseq_merge[of similar cs] by (auto dest: list_emb_set)

lemma no_duplicates_absorb:
  assumes "sorted_wrt (\<lambda>x y. \<not> duplicate similar x y) accepted"
  shows "sorted_wrt (\<lambda>x y. \<not> duplicate similar x y) (absorb similar c accepted)"
proof -
  have "sorted_wrt (\<lambda>x y. \<not> duplicate similar x y)
          (filter (\<lambda>x. \<not> duplicate similar x c) accepted)"
    using assms by (rule sorted_wrt_filter)
  then have "sorted_wrt (\<lambda>x y. \<not> duplicate similar x y)
          (filter (\<lambda>x. \<not> duplicate similar x c) accepted @ [c])"
    by (simp add: sorted_wrt_append)
  then show ?thesis using assms by (simp add: absorb_def)
qed

lemma no_duplicates_merge: "sorted_wrt (\<lambda>x y. \<not> duplicate similar x y) (merge similar cs)"
proof (induction cs rule: rev_induct)
  case Nil
  then show ?case by (simp add: merge_def)
next
  case (snoc c cs)
  then show ?case by (simp only: merge_snoc no_duplicates_absorb)
qed

lemma merge_two:
  "merge similar [a, b]
     = (if duplicate similar a b then [if confidence a < confidence b then b else a]
        else [a, b])"
  by (simp add: merge_def absorb_def)

text \<open>
  Claim C4. Two candidates are duplicates exactly when their timestamps differ by at most
  30 seconds and their titles are similar. The merge is greedy: the result for a list
  extended by a candidate is the result for the list with that candidate absorbed, and
  the candidate is compared against the events accepted so far. It is accepted, and the
  accepted events it duplicates are dropped, when its confidence is strictly higher than
  that of each of them; it is dropped, and the accepted events stay, when one of them has
  at least its confidence. So of a new candidate and an accepted event it duplicates
  exactly one is kept. Of two candidates that are duplicates the merge keeps the one with
  the higher confidence, the earlier one on a tie; two candidates that are not duplicates
  are both kept. No event of the result is a duplicate of a later one, and of none at all
  when the similarity of titles is symmetric. The merge only drops candidates and keeps
  the others in processing order.
\<close>

theorem greedy_merge:
  "(duplicate similar a b
      \<longleftrightarrow> \<bar>timestamp_seconds a - timestamp_seconds b\<bar> \<le> 30 \<and> similar (title a) (title b))
   \<and> merge similar [] = []
   \<and> merge similar (cs @ [c]) = absorb similar c (merge similar cs)
   \<and> ((\<forall>x \<in> set accepted. duplicate similar x c \<longrightarrow> confidence x < confidence c)
        \<longrightarrow> absorb similar c accepted
            = filter (\<lambda>x. \<not> duplicate similar x c) accepted @ [c])
   \<and> ((\<exists>x \<in> set accepted. duplicate similar x c \<and> confidence c \<le> confidence x)
        \<longrightarrow> absorb similar c accepted = accepted)
   \<and> (d \<in> set accepted \<and> duplicate similar d c \<and> c \<notin> set accepted
        \<longrightarrow> (d \<in> set (absorb similar c accepted)) \<noteq> (c \<in> set (absorb similar c accepted)))
   \<and> (duplicate similar a b
        \<longrightarrow> merge similar [a, b] = [if confidence a < confidence b then b else a])
   \<and> (\<not> duplicate similar a b \<longrightarrow> merge similar [a, b] = [a, b])
   \<and> sorted_wrt (\<lambda>x y. \<not> duplicate similar x y) (merge similar cs)
   \<and> ((\<forall>s t. similar s t = similar t s) \<and> i < length (merge similar cs)
        \<and> j < length (merge similar cs) \<and> i \<noteq> j
        \<longrightarrow> \<not> duplicate similar (merge similar cs ! i) (merge similar cs ! j))
   \<and> subseq (merge similar cs) cs"
proof (intro conjI impI)
  show "duplicate similar a b
      \<longleftrightarrow> \<bar>timestamp_seconds a - timestamp_seconds b\<bar> \<le> 30 \<and> similar (title a) (title b)"
    by (simp add: duplicate_def)
  show "merge similar [] = []"
    by (rule merge_Nil)
  show "merge similar (cs @ [c]) = absorb similar c (merge similar cs)"
    by (rule merge_snoc)
  show "sorted_wrt (\<lambda>x y. \<not> duplicate similar x y) (merge similar cs)"
    by (rule no_duplicates_merge)
  show "subseq (merge similar cs) cs"
    by (rule subseq_merge)
next
  assume "\<forall>x \<in> set accepted. duplicate similar x c \<longrightarrow> confidence x < confidence c"
  then show "absorb similar c accepted = filter (\<lambda>x. \<not> duplicate similar x c) accepted @ [c]"
    by (rule absorb_accept)
next
  assume "\<exists>x \<in> set accepted. duplicate similar x c \<and> confidence c \<le> confidence x"
  then show "absorb similar c accepted = accepted"
    by (rule absorb_drop)
next
  assume "d \<in> set accepted \<and> duplicate similar d c \<and> c \<notin> set accepted"
  then show "(d \<in> set (absorb similar c accepted)) \<noteq> (c \<in> set (absorb similar c accepted))"
    using absorb_exactly_one[of d accepted similar c] by blast
next
  assume "duplicate similar a b"
  then show "merge similar [a, b] = [if confidence a < confidence b then b else a]"
    by (simp add: merge_two)
next
  assume "\<not> duplicate similar a b"
  then show "merge similar [a, b] = [a, b]"
    by (simp add: merge_two)
next
  let ?m = "merge similar cs"
  assume h: "(\<forall>s t. similar s t = similar t s) \<and> i < length ?m \<and> j < length ?m \<and> i \<noteq> j"
  then have sym: "duplicate similar x y = duplicate similar y x" for x y
    by (auto simp: duplicate_def abs_minus_commute)
  have n: "\<not> duplicate similar (?m ! k) (?m ! l)" if "k < l" "l < length ?m" for k l
    using no_duplicates_merge[of similar cs] that by (simp add: sorted_wrt_iff_nth_less)
  from h consider "i < j" | "j < i" by linarith
  then show "\<not> duplicate similar (?m ! i) (?m ! j)"
  proof cases
    case 1
    then show ?thesis using n[of i j] h by simp
  next
    case 2
    then show ?thesis using n[of j i] h sym by simp
  qed
qed

text \<open>
  Of two duplicates the one with lower confidence can be the one kept. Take three
  candidates with the same title, processed in the order \<open>A\<close> (at 0 s, confidence 0.5),
  \<open>D\<close> (at 50 s, confidence 0.9), \<open>C\<close> (at 25 s, confidence 0.7). \<open>A\<close> and \<open>D\<close> are not
  duplicates and are both accepted. \<open>C\<close> is a duplicate of both; it loses against \<open>D\<close>
  and is dropped, so of the duplicates \<open>A\<close> and \<open>C\<close> the result keeps \<open>A\<close>.
\<close>

theorem greedy_merge_counterexample:
  "duplicate (=)
     \<lparr> timestamp_seconds = 0, title = ''Save fails'', expected = ''saved'',
       actual = ''nothing'', evidence = ''at 0:00'', confidence = 1 / 2 \<rparr>
     \<lparr> timestamp_seconds = 25, title = ''Save fails'', expected = ''saved'',
       actual = ''nothing'', evidence = ''at 0:25'', confidence = 7 / 10 \<rparr>
   \<and> confidence \<lparr> timestamp_seconds = 0, title = ''Save fails'', expected = ''saved'',
       actual = ''nothing'', evidence = ''at 0:00'', confidence = 1 / 2 \<rparr>
     < confidence \<lparr> timestamp_seconds = 25, title = ''Save fails'', expected = ''saved'',
       actual = ''nothing'', evidence = ''at 0:25'', confidence = 7 / 10 \<rparr>
   \<and> merge (=)
       [\<lparr> timestamp_seconds = 0, title = ''Save fails'', expected = ''saved'',
          actual = ''nothing'', evidence = ''at 0:00'', confidence = 1 / 2 \<rparr>,
        \<lparr> timestamp_seconds = 50, title = ''Save fails'', expected = ''saved'',
          actual = ''nothing'', evidence = ''at 0:50'', confidence = 9 / 10 \<rparr>,
        \<lparr> timestamp_seconds = 25, title = ''Save fails'', expected = ''saved'',
          actual = ''nothing'', evidence = ''at 0:25'', confidence = 7 / 10 \<rparr>]
     = [\<lparr> timestamp_seconds = 0, title = ''Save fails'', expected = ''saved'',
          actual = ''nothing'', evidence = ''at 0:00'', confidence = 1 / 2 \<rparr>,
        \<lparr> timestamp_seconds = 50, title = ''Save fails'', expected = ''saved'',
          actual = ''nothing'', evidence = ''at 0:50'', confidence = 9 / 10 \<rparr>]"
  by (simp add: duplicate_def merge_def absorb_def)

text \<open>
  This does not depend on how the merge is done: for these three candidates no result
  keeps, of every two duplicates, the one with higher confidence and drops the other,
  since \<open>C\<close> would have to be kept against \<open>A\<close> and dropped against \<open>D\<close>.
\<close>

lemma no_result_keeps_higher:
  "\<not> keeps_higher (=)
       [\<lparr> timestamp_seconds = 0, title = ''Save fails'', expected = ''saved'',
          actual = ''nothing'', evidence = ''at 0:00'', confidence = 1 / 2 \<rparr>,
        \<lparr> timestamp_seconds = 50, title = ''Save fails'', expected = ''saved'',
          actual = ''nothing'', evidence = ''at 0:50'', confidence = 9 / 10 \<rparr>,
        \<lparr> timestamp_seconds = 25, title = ''Save fails'', expected = ''saved'',
          actual = ''nothing'', evidence = ''at 0:25'', confidence = 7 / 10 \<rparr>] out"
  by (auto simp: keeps_higher_def duplicate_def)

theorem greedy_merge_witness:
  "duplicate (\<lambda>s t. contains (toLowerCase s) ''submit'' \<and> contains (toLowerCase t) ''submit'')
     \<lparr> timestamp_seconds = 10, title = ''Submit button does nothing'', expected = ''saved'',
       actual = ''nothing'', evidence = ''at 0:10'', confidence = 6 / 10 \<rparr>
     \<lparr> timestamp_seconds = 12, title = ''Clicking submit has no effect'', expected = ''saved'',
       actual = ''nothing'', evidence = ''at 0:12'', confidence = 9 / 10 \<rparr>
   \<and> merge (\<lambda>s t. contains (toLowerCase s) ''submit'' \<and> contains (toLowerCase t) ''submit'')
     [\<lparr> timestamp_seconds = 10, title = ''Submit button does nothing'', expected = ''saved'',
        actual = ''nothing'', evidence = ''at 0:10'', confidence = 6 / 10 \<rparr>,
      \<lparr> timestamp_seconds = 12, title = ''Clicking submit has no effect'', expected = ''saved'',
        actual = ''nothing'', evidence = ''at 0:12'', confidence = 9 / 10 \<rparr>]
     = [\<lparr> timestamp_seconds = 12, title = ''Clicking submit has no effect'', expected = ''saved'',
          actual = ''nothing'', evidence = ''at 0:12'', confidence = 9 / 10 \<rparr>]
   \<and> absorb (\<lambda>s t. contains (toLowerCase s) ''submit'' \<and> contains (toLowerCase t) ''submit'')
       \<lparr> timestamp_seconds = 12, title = ''Clicking submit has no effect'', expected = ''saved'',
         actual = ''nothing'', evidence = ''at 0:12'', confidence = 9 / 10 \<rparr>
       [\<lparr> timestamp_seconds = 10, title = ''Submit button does nothing'', expected = ''saved'',
          actual = ''nothing'', evidence = ''at 0:10'', confidence = 6 / 10 \<rparr>]
     = [\<lparr> timestamp_seconds = 12, title = ''Clicking submit has no effect'', expected = ''saved'',
          actual = ''nothing'', evidence = ''at 0:12'', confidence = 9 / 10 \<rparr>]
   \<and> \<not> duplicate (=)
     \<lparr> timestamp_seconds = 10, title = ''Submit fails'', expected = ''saved'',
       actual = ''nothing'', evidence = ''at 0:10'', confidence = 1 / 2 \<rparr>
     \<lparr> timestamp_seconds = 50, title = ''Export crashes'', expected = ''a file'',
       actual = ''a crash'', evidence = ''at 0:50'', confidence = 1 / 2 \<rparr>
   \<and> merge (=)
     [\<lparr> timestamp_seconds = 10, title = ''Submit fails'', expected = ''saved'',
        actual = ''nothing'', evidence = ''at 0:10'', confidence = 1 / 2 \<rparr>,
      \<lparr> timestamp_seconds = 50, title = ''Export crashes'', expected = ''a file'',
        actual = ''a crash'', evidence = ''at 0:50'', confidence = 1 / 2 \<rparr>]
     = [\<lparr> timestamp_seconds = 10, title = ''Submit fails'', expected = ''saved'',
          actual = ''nothing'', evidence = ''at 0:10'', confidence = 1 / 2 \<rparr>,
        \<lparr> timestamp_seconds = 50, title = ''Export crashes'', expected = ''a file'',
          actual = ''a crash'', evidence = ''at 0:50'', confidence = 1 / 2 \<rparr>]
   \<and> absorb (=)
       \<lparr> timestamp_seconds = 12, title = ''Submit fails'', expected = ''saved'',
         actual = ''nothing'', evidence = ''at 0:12'', confidence = 1 / 2 \<rparr>
       [\<lparr> timestamp_seconds = 10, title = ''Submit fails'', expected = ''saved'',
          actual = ''nothing'', evidence = ''at 0:10'', confidence = 1 / 2 \<rparr>,
        \<lparr> timestamp_seconds = 50, title = ''Export crashes'', expected = ''a file'',
          actual = ''a crash'', evidence = ''at 0:50'', confidence = 1 / 2 \<rparr>]
     = [\<lparr> timestamp_seconds = 10, title = ''Submit fails'', expected = ''saved'',
          actual = ''nothing'', evidence = ''at 0:10'', confidence = 1 / 2 \<rparr>,
        \<lparr> timestamp_seconds = 50, title = ''Export crashes'', expected = ''a file'',
          actual = ''a crash'', evidence = ''at 0:50'', confidence = 1 / 2 \<rparr>]
   \<and> \<lparr> timestamp_seconds = 12, title = ''Submit fails'', expected = ''saved'',
         actual = ''nothing'', evidence = ''at 0:12'', confidence = 1 / 2 \<rparr>
     \<notin> set (absorb (=)
       \<lparr> timestamp_seconds = 12, title = ''Submit fails'', expected = ''saved'',
         actual = ''nothing'', evidence = ''at 0:12'', confidence = 1 / 2 \<rparr>
       [\<lparr> timestamp_seconds = 10, title = ''Submit fails'', expected = ''saved'',
          actual = ''nothing'', evidence = ''at 0:10'', confidence = 1 / 2 \<rparr>,
        \<lparr> timestamp_seconds = 50, title = ''Export crashes'', expected = ''a file'',
          actual = ''a crash'', evidence = ''at 0:50'', confidence = 1 / 2 \<rparr>])"
proof -
  let ?sim = "\<lambda>s t. contains (toLowerCase s) ''submit'' \<and> contains (toLowerCase t) ''submit''"
  let ?a = "\<lparr> timestamp_seconds = 10, title = ''Submit button does nothing'', expected = ''saved'',
       actual = ''nothing'', evidence = ''at 0:10'', confidence = 6 / 10 \<rparr>"
  let ?b = "\<lparr> timestamp_seconds = 12, title = ''Clicking submit has no effect'', expected = ''saved'',
       actual = ''nothing'', evidence = ''at 0:12'', confidence = 9 / 10 \<rparr>"
  let ?c = "\<lparr> timestamp_seconds = 10, title = ''Submit fails'', expected = ''saved'',
       actual = ''nothing'', evidence = ''at 0:10'', confidence = 1 / 2 \<rparr>"
  let ?d = "\<lparr> timestamp_seconds = 50, title = ''Export crashes'', expected = ''a file'',
       actual = ''a crash'', evidence = ''at 0:50'', confidence = 1 / 2 \<rparr>"
  let ?e = "\<lparr> timestamp_seconds = 12, title = ''Submit fails'', expected = ''saved'',
       actual = ''nothing'', evidence = ''at 0:12'', confidence = 1 / 2 \<rparr>"
  have s: "contains (toLowerCase ''Submit button does nothing'') ''submit''"
          "contains (toLowerCase ''Clicking submit has no effect'') ''submit''"
    by code_simp+
  have dup: "duplicate ?sim ?a ?b"
    using s by (simp add: duplicate_def)
  have less: "\<forall>x \<in> set [?a]. duplicate ?sim x ?b \<longrightarrow> confidence x < confidence ?b"
    by simp
  have keep: "filter (\<lambda>x. \<not> duplicate ?sim x ?b) [?a] = []"
    using dup by simp
  note g1 = greedy_merge[where similar = ?sim and a = ?a and b = ?b and cs = "[]" and c = ?b
      and accepted = "[?a]" and d = ?a and i = 0 and j = 0]
  from g1 dup have 1: "merge ?sim [?a, ?b] = [?b]" by simp
  from g1 less keep have 2: "absorb ?sim ?b [?a] = [?b]" by simp
  have nodup: "\<not> duplicate (=) ?c ?d"
    by (simp add: duplicate_def)
  have tie: "\<exists>x \<in> set [?c, ?d]. duplicate (=) x ?e \<and> confidence ?e \<le> confidence x"
    by (simp add: duplicate_def)
  have new: "?c \<in> set [?c, ?d] \<and> duplicate (=) ?c ?e \<and> ?e \<notin> set [?c, ?d]"
    by (simp add: duplicate_def)
  have sym: "\<forall>s t :: string. (s = t) = (t = s)" by auto
  note g2 = greedy_merge[where similar = "(=)" and a = ?c and b = ?d and cs = "[?c, ?d]"
      and c = ?e and accepted = "[?c, ?d]" and d = ?c and i = 0 and j = 1]
  from g2 nodup have 3: "merge (=) [?c, ?d] = [?c, ?d]" by blast
  from g2 tie have 4: "absorb (=) ?e [?c, ?d] = [?c, ?d]" by blast
  from g2 new have "(?c \<in> set (absorb (=) ?e [?c, ?d])) \<noteq> (?e \<in> set (absorb (=) ?e [?c, ?d]))"
    by blast
  then have 5: "?e \<notin> set (absorb (=) ?e [?c, ?d])"
    using 4 by simp
  from g2 sym 3 have "\<not> duplicate (=) ([?c, ?d] ! 0) ([?c, ?d] ! 1)"
    by simp
  then show ?thesis using dup 1 2 3 4 5 by simp
qed

section \<open>The final order\<close>

lemma failures_analyze_transcript:
  "failures (fst (analyze_transcript backend similar duration ts st))
     = final_order (merge similar
         (filter (\<lambda>e. 0 \<le> timestamp_seconds e \<and> timestamp_seconds e \<le> duration)
            (fst (extract_all backend (map (build_window ts) (detect_candidates ts)) st))))"
  by (simp add: analyze_transcript_def Let_def split: prod.splits)

lemma ties_in_detection_order:
  "subseq (filter (\<lambda>e. timestamp_seconds e = k) (final_order (merge similar (filter Q es)))) es"
proof -
  have "filter (\<lambda>e. timestamp_seconds e = k) (final_order (merge similar (filter Q es)))
          = filter (\<lambda>e. timestamp_seconds e = k) (merge similar (filter Q es))"
    by (simp add: final_order_def sort_key_stable)
  moreover have "subseq (filter (\<lambda>e. timestamp_seconds e = k) (merge similar (filter Q es)))
                   (merge similar (filter Q es))"
    by (rule subseq_filter_left)
  moreover have "subseq (merge similar (filter Q es)) (filter Q es)"
    by (rule subseq_merge)
  moreover have "subseq (filter Q es) es"
    by (rule subseq_filter_left)
  ultimately show ?thesis
    by (metis subseq_order.order_trans)
qed

text \<open>
  Claim C5. The final order is ascending in \<^verbatim>\<open>timestamp_seconds\<close> and stable: the events
  with one and the same timestamp keep the order they had before; it keeps every event.
  The failures of every response of the pipeline are in ascending order, and those with
  one and the same timestamp are in it in the order in which the Extraction Engine
  produced them, window after window: they are a subsequence of the detected events.
  Events with the timestamps 42.3, 5.1 and 18.0 come out as 5.1, 18.0, 42.3.
\<close>

theorem final_order_sorted_stable:
  "sorted (map timestamp_seconds (final_order es))
   \<and> filter (\<lambda>e. timestamp_seconds e = k) (final_order es)
       = filter (\<lambda>e. timestamp_seconds e = k) es
   \<and> set (final_order es) = set es \<and> length (final_order es) = length es
   \<and> sorted (map timestamp_seconds
               (failures (fst (analyze_transcript backend similar duration ts st))))
   \<and> subseq (filter (\<lambda>e. timestamp_seconds e = k)
               (failures (fst (analyze_transcript backend similar duration ts st))))
             (fst (extract_all backend (map (build_window ts) (detect_candidates ts)) st))
   \<and> subseq (filter (\<lambda>e. timestamp_seconds e = k) (final_order (merge similar es))) es
   \<and> (map timestamp_seconds [a, b, c] = [423 / 10, 51 / 10, 18]
        \<longrightarrow> final_order [a, b, c] = [b, c, a]
          \<and> map timestamp_seconds (final_order [a, b, c]) = [51 / 10, 18, 423 / 10])"
proof (intro conjI impI)
  show "sorted (map timestamp_seconds (final_order es))"
    by (simp add: final_order_def sorted_sort_key)
  show "filter (\<lambda>e. timestamp_seconds e = k) (final_order es)
       = filter (\<lambda>e. timestamp_seconds e = k) es"
    by (simp add: final_order_def sort_key_stable)
  show "set (final_order es) = set es" "length (final_order es) = length es"
    by (simp_all add: final_order_def)
  show "sorted (map timestamp_seconds
               (failures (fst (analyze_transcript backend similar duration ts st))))"
    by (simp only: failures_analyze_transcript) (simp add: final_order_def sorted_sort_key)
  show "subseq (filter (\<lambda>e. timestamp_seconds e = k)
               (failures (fst (analyze_transcript backend similar duration ts st))))
             (fst (extract_all backend (map (build_window ts) (detect_candidates ts)) st))"
    by (simp only: failures_analyze_transcript ties_in_detection_order)
  show "subseq (filter (\<lambda>e. timestamp_seconds e = k) (final_order (merge similar es))) es"
    using ties_in_detection_order[of k similar "\<lambda>e. True" es] by simp
next
  assume t: "map timestamp_seconds [a, b, c] = [423 / 10, 51 / 10, 18]"
  then show 1: "final_order [a, b, c] = [b, c, a]"
    by (simp add: final_order_def)
  show "map timestamp_seconds (final_order [a, b, c]) = [51 / 10, 18, 423 / 10]"
    using t by (simp add: 1)
qed

text \<open>
  An example with a tie: one window for which the backend reports three failures, at 12,
  5 and 12 seconds. The response lists the one at 5 seconds first and the two at 12
  seconds in the order in which they were reported.
\<close>

theorem final_order_sorted_stable_witness:
  "fst (extract_all
          (\<lambda>p n. (Parsed (JArr (map FailureEvent_json
             [\<lparr> timestamp_seconds = 12, title = ''Export crashes'', expected = ''a file'',
                actual = ''a crash'', evidence = ''at 0:12'', confidence = 1 / 2 \<rparr>,
              \<lparr> timestamp_seconds = 5, title = ''Login is stuck'', expected = ''the dashboard'',
                actual = ''a spinner'', evidence = ''at 0:05'', confidence = 3 / 4 \<rparr>,
              \<lparr> timestamp_seconds = 12, title = ''Submit fails'', expected = ''saved'',
                actual = ''nothing'', evidence = ''at 0:12'', confidence = 1 / 4 \<rparr>])), Suc n))
          (map (build_window
             [\<lparr> seg_start = 0, seg_end = 4, seg_text = ''I open the settings page'' \<rparr>,
              \<lparr> seg_start = 4, seg_end = 9, seg_text = ''and the Export button is broken'' \<rparr>])
             (detect_candidates
               [\<lparr> seg_start = 0, seg_end = 4, seg_text = ''I open the settings page'' \<rparr>,
                \<lparr> seg_start = 4, seg_end = 9, seg_text = ''and the Export button is broken'' \<rparr>]))
          0)
     = [\<lparr> timestamp_seconds = 12, title = ''Export crashes'', expected = ''a file'',
          actual = ''a crash'', evidence = ''at 0:12'', confidence = 1 / 2 \<rparr>,
        \<lparr> timestamp_seconds = 5, title = ''Login is stuck'', expected = ''the dashboard'',
          actual = ''a spinner'', evidence = ''at 0:05'', confidence = 3 / 4 \<rparr>,
        \<lparr> timestamp_seconds = 12, title = ''Submit fails'', expected = ''saved'',
          actual = ''nothing'', evidence = ''at 0:12'', confidence = 1 / 4 \<rparr>]
   \<and> failures (fst (analyze_transcript
          (\<lambda>p n. (Parsed (JArr (map FailureEvent_json
             [\<lparr> timestamp_seconds = 12, title = ''Export crashes'', expected = ''a file'',
                actual = ''a crash'', evidence = ''at 0:12'', confidence = 1 / 2 \<rparr>,
              \<lparr> timestamp_seconds = 5, title = ''Login is stuck'', expected = ''the dashboard'',
                actual = ''a spinner'', evidence = ''at 0:05'', confidence = 3 / 4 \<rparr>,
              \<lparr> timestamp_seconds = 12, title = ''Submit fails'', expected = ''saved'',
                actual = ''nothing'', evidence = ''at 0:12'', confidence = 1 / 4 \<rparr>])), Suc n))
          (=) 300
          [\<lparr> seg_start = 0, seg_end = 4, seg_text = ''I open the settings page'' \<rparr>,
           \<lparr> seg_start = 4, seg_end = 9, seg_text = ''and the Export button is broken'' \<rparr>]
          0))
     = [\<lparr> timestamp_seconds = 5, title = ''Login is stuck'', expected = ''the dashboard'',
          actual = ''a spinner'', evidence = ''at 0:05'', confidence = 3 / 4 \<rparr>,
        \<lparr> timestamp_seconds = 12, title = ''Export crashes'', expected = ''a file'',
          actual = ''a crash'', evidence = ''at 0:12'', confidence = 1 / 2 \<rparr>,
        \<lparr> timestamp_seconds = 12, title = ''Submit fails'', expected = ''saved'',
          actual = ''nothing'', evidence = ''at 0:12'', confidence = 1 / 4 \<rparr>]
   \<and> subseq
        [\<lparr> timestamp_seconds = 12, title = ''Export crashes'', expected = ''a file'',
           actual = ''a crash'', evidence = ''at 0:12'', confidence = 1 / 2 \<rparr>,
         \<lparr> timestamp_seconds = 12, title = ''Submit fails'', expected = ''saved'',
           actual = ''nothing'', evidence = ''at 0:12'', confidence = 1 / 4 \<rparr>]
        [\<lparr> timestamp_seconds = 12, title = ''Export crashes'', expected = ''a file'',
           actual = ''a crash'', evidence = ''at 0:12'', confidence = 1 / 2 \<rparr>,
         \<lparr> timestamp_seconds = 5, title = ''Login is stuck'', expected = ''the dashboard'',
           actual = ''a spinner'', evidence = ''at 0:05'', confidence = 3 / 4 \<rparr>,
         \<lparr> timestamp_seconds = 12, title = ''Submit fails'', expected = ''saved'',
           actual = ''nothing'', evidence = ''at 0:12'', confidence = 1 / 4 \<rparr>]
   \<and> final_order
        [\<lparr> timestamp_seconds = 423 / 10, title = ''Export crashes'', expected = ''a file'',
           actual = ''a crash'', evidence = ''at 0:42'', confidence = 1 / 2 \<rparr>,
         \<lparr> timestamp_seconds = 51 / 10, title = ''Login is stuck'', expected = ''the dashboard'',
           actual = ''a spinner'', evidence = ''at 0:05'', confidence = 3 / 4 \<rparr>,
         \<lparr> timestamp_seconds = 18, title = ''Submit fails'', expected = ''saved'',
           actual = ''nothing'', evidence = ''at 0:18'', confidence = 1 / 2 \<rparr>]
      = [\<lparr> timestamp_seconds = 51 / 10, title = ''Login is stuck'', expected = ''the dashboard'',
           actual = ''a spinner'', evidence = ''at 0:05'', confidence = 3 / 4 \<rparr>,
         \<lparr> timestamp_seconds = 18, title = ''Submit fails'', expected = ''saved'',
           actual = ''nothing'', evidence = ''at 0:18'', confidence = 1 / 2 \<rparr>,
         \<lparr> timestamp_seconds = 423 / 10, title = ''Export crashes'', expected = ''a file'',
           actual = ''a crash'', evidence = ''at 0:42'', confidence = 1 / 2 \<rparr>]"
proof -
  let ?x = "\<lparr> timestamp_seconds = 12, title = ''Export crashes'', expected = ''a file'',
        actual = ''a crash'', evidence = ''at 0:12'', confidence = 1 / 2 \<rparr>"
  let ?y = "\<lparr> timestamp_seconds = 5, title = ''Login is stuck'', expected = ''the dashboard'',
        actual = ''a spinner'', evidence = ''at 0:05'', confidence = 3 / 4 \<rparr>"
  let ?z = "\<lparr> timestamp_seconds = 12, title = ''Submit fails'', expected = ''saved'',
        actual = ''nothing'', evidence = ''at 0:12'', confidence = 1 / 4 \<rparr>"
  let ?a = "\<lparr> timestamp_seconds = 423 / 10, title = ''Export crashes'', expected = ''a file'',
        actual = ''a crash'', evidence = ''at 0:42'', confidence = 1 / 2 \<rparr>"
  let ?b = "\<lparr> timestamp_seconds = 51 / 10, title = ''Login is stuck'', expected = ''the dashboard'',
        actual = ''a spinner'', evidence = ''at 0:05'', confidence = 3 / 4 \<rparr>"
  let ?c = "\<lparr> timestamp_seconds = 18, title = ''Submit fails'', expected = ''saved'',
        actual = ''nothing'', evidence = ''at 0:18'', confidence = 1 / 2 \<rparr>"
  let ?ts = "[\<lparr> seg_start = 0, seg_end = 4, seg_text = ''I open the settings page'' \<rparr>,
      \<lparr> seg_start = 4, seg_end = 9, seg_text = ''and the Export button is broken'' \<rparr>]"
  let ?w = "\<lparr> segments = ?ts, center_index = 1 \<rparr>"
  let ?B = "\<lambda>(p::prompt) n. (Parsed (JArr (map FailureEvent_json [?x, ?y, ?z])), Suc n)"
  have ws: "map (build_window ?ts) (detect_candidates ?ts) = [?w]"
    by (simp add: detect_example window_example)
  have v: "validate (JArr (map FailureEvent_json [?x, ?y, ?z])) = Inr [?x, ?y, ?z]"
    by (simp add: validate_def as_FailureEvent_json)
  have d: "fst (extract_all ?B (map (build_window ?ts) (detect_candidates ?ts)) 0) = [?x, ?y, ?z]"
    unfolding ws using v by (simp add: extract_window_def check_reply_def)
  have m: "merge (=) [?x, ?y, ?z] = [?x, ?y, ?z]"
    by (simp add: merge_def absorb_def duplicate_def)
  have o: "failures (fst (analyze_transcript ?B (=) 300 ?ts 0)) = [?y, ?x, ?z]"
    by (simp only: failures_analyze_transcript d) (simp add: m final_order_def)
  have t: "map timestamp_seconds [?a, ?b, ?c] = [423 / 10, 51 / 10, 18]" by simp
  note g = final_order_sorted_stable[where es = "[?x, ?y, ?z]" and k = 12 and backend = ?B
      and similar = "(=)" and duration = 300 and ts = ?ts and st = 0
      and a = ?a and b = ?b and c = ?c]
  from g have "subseq (filter (\<lambda>e. timestamp_seconds e = 12)
                 (failures (fst (analyze_transcript ?B (=) 300 ?ts 0))))
               (fst (extract_all ?B (map (build_window ?ts) (detect_candidates ?ts)) 0))"
    by blast
  then have s: "subseq [?x, ?z] [?x, ?y, ?z]"
    by (simp only: o d) simp
  from g t have f: "final_order [?a, ?b, ?c] = [?b, ?c, ?a]" by blast
  show ?thesis using d o s f by blast
qed

end
